theory Spec2Isabelle
  imports Complex_Main "HOL-Library.Signed_Division"
begin

text \<open>
  A shallow embedding of parts of \<^verbatim>\<open>src/Reconstruction.cc\<close> of SVRTK, the slice-to-volume
  reconstruction of MIRTK: the slice acquisition order, the volume weights of the
  coefficient engine, the slice-wise EM robust statistics, the NCC gate of the structural
  exclusion, the quality measure, the background filter and the super-resolution step.
  Definitions come first, in the order of these topics; the theorems follow.
\<close>

section \<open>Slice acquisition order\<close>

text \<open>
  \<^verbatim>\<open>Reconstruction::GetSliceAcquisitionOrder\<close> fills, for every stack, two local arrays
  \<^verbatim>\<open>z_slice_order\<close> and \<^verbatim>\<open>t_slice_order\<close> of \<^verbatim>\<open>attr._z\<close> cells and appends them to the
  members \<^verbatim>\<open>_z_slice_order\<close> and \<^verbatim>\<open>_t_slice_order\<close>.  The arrays are not initialised by
  the source, so a cell is \<open>None\<close> until it is written.  Every step the C++ standard leaves
  undefined (division by zero, an index outside an array, copying a cell never written)
  makes the model return \<open>None\<close>.  C \<^verbatim>\<open>int\<close> values are modelled as \<open>int\<close> (the counters stay
  far below \<open>2 ^ 31\<close>), the \<^verbatim>\<open>size_t\<close> counters of the shuffling loop wrap modulo \<open>2 ^ 64\<close>.
\<close>

type_synonym order_array = "int option list"

text \<open>The \<^verbatim>\<open>while (counter < attr._z)\<close> loop of the ascending (1) and descending (2) orders.\<close>

function ascending_loop ::
  "int \<Rightarrow> int \<Rightarrow> nat \<Rightarrow> nat \<Rightarrow> int \<Rightarrow> int \<Rightarrow> order_array \<Rightarrow> order_array
     \<Rightarrow> (order_array \<times> order_array) option" where
  "ascending_loop ord pack z counter slice_pos_counter p zs ts =
     (if counter < z then
        (if 0 \<le> slice_pos_counter \<and> slice_pos_counter < int z then
           (let zs' = zs[counter := Some slice_pos_counter];
                ts' = ts[nat slice_pos_counter := Some (int counter)];
                spc = slice_pos_counter + pack
            in if ord = 1 then
                 (if spc \<ge> int z
                  then ascending_loop ord pack z (Suc counter) (p + 1) (p + 1) zs' ts'
                  else ascending_loop ord pack z (Suc counter) spc p zs' ts')
               else
                 (if spc < 0
                  then ascending_loop ord pack z (Suc counter) (int z - 1 - (p + 1)) (p + 1) zs' ts'
                  else ascending_loop ord pack z (Suc counter) spc p zs' ts'))
         else None)
      else Some (zs, ts))"
  by pat_completeness auto
termination
  by (relation "measure (\<lambda>(ord, pack, z, counter, spc, p, zs, ts). z - counter)") auto

text \<open>\<^verbatim>\<open>index += stepFactor\<close> and \<^verbatim>\<open>restart += rewinderFactor\<close> on \<^verbatim>\<open>size_t\<close>.\<close>

definition size_t_add :: "nat \<Rightarrow> int \<Rightarrow> nat" where
  "size_t_add a b = nat ((int a + b) mod 2 ^ 64)"

text \<open>
  The shuffling loop
  \<^verbatim>\<open>for (size_t i = 0, index = 0, restart = 0; i < fakeAscending.size(); i++, index += stepFactor)\<close>;
  the first argument counts the iterations that remain.
\<close>

fun shuffling ::
  "nat \<Rightarrow> int \<Rightarrow> int \<Rightarrow> int list \<Rightarrow> nat \<Rightarrow> nat \<Rightarrow> int list \<Rightarrow> int list option" where
  "shuffling 0 stepFactor rewinderFactor fakeAscending index restart realInterleaved =
     Some realInterleaved"
| "shuffling (Suc k) stepFactor rewinderFactor fakeAscending index restart realInterleaved =
     (let restart' = (if index \<ge> length fakeAscending
                      then size_t_add restart rewinderFactor else restart);
          index' = (if index \<ge> length fakeAscending then restart' else index)
      in if index' < length fakeAscending
         then shuffling k stepFactor rewinderFactor fakeAscending
                (size_t_add index' stepFactor) restart'
                (realInterleaved @ [fakeAscending ! index'])
         else None)"

text \<open>
  \<^verbatim>\<open>round(sqrt(double(n)))\<close> for \<open>n \<ge> 0\<close>, computed on integers: the least \<open>k\<close> with
  \<open>n \<le> k * k + k\<close>, that is, with \<open>sqrt n < k + 1 / 2\<close>.  Lemma \<open>round_sqrt_correct\<close>
  below shows that it is \<open>round (sqrt n)\<close>.
\<close>

definition round_sqrt :: "int \<Rightarrow> int" where
  "round_sqrt n =
     (case find (\<lambda>k. nat n \<le> k * k + k) [0..<Suc (nat n)] of
        Some k \<Rightarrow> int k
      | None \<Rightarrow> 0)"

text \<open>
  The loop over the packages of one stack,
  \<^verbatim>\<open>for (int p = 0, counter = 0; p < pack_num[dyn]; p++)\<close>; the first argument counts the
  packages that remain.
\<close>

fun package_loop ::
  "nat \<Rightarrow> int \<Rightarrow> int \<Rightarrow> int \<Rightarrow> int \<Rightarrow> int \<Rightarrow> int \<Rightarrow> int \<Rightarrow> int \<Rightarrow> int list
     \<Rightarrow> int list option" where
  "package_loop 0 ord z pack slicesPerPackage stepFactor rewinderFactor p counter realInterleaved =
     Some realInterleaved"
| "package_loop (Suc k) ord z pack slicesPerPackage stepFactor rewinderFactor p counter
       realInterleaved =
     (let stepFactor' =
            (if ord = 4 then
               (if z - counter > slicesPerPackage * pack
                then round_sqrt (slicesPerPackage + 1)
                else round_sqrt slicesPerPackage)
             else stepFactor);
          counter' = (if ord = 4 \<and> z - counter > slicesPerPackage * pack
                      then counter + 1 else counter);
          middle = map (\<lambda>s. int s * pack + p) [0..<nat slicesPerPackage];
          fakeAscending =
            (if z > slicesPerPackage * pack \<and> slicesPerPackage * pack + p < z
             then middle @ [slicesPerPackage * pack + p] else middle)
      in case shuffling (length fakeAscending) stepFactor' rewinderFactor fakeAscending 0 0
                realInterleaved of
           None \<Rightarrow> None
         | Some realInterleaved' \<Rightarrow>
             package_loop k ord z pack slicesPerPackage stepFactor' rewinderFactor (p + 1)
               counter' realInterleaved')"

text \<open>
  The saving loop: \<^verbatim>\<open>z_slice_order[i] = realInterleaved[i]\<close> and
  \<^verbatim>\<open>t_slice_order[realInterleaved[i]] = i\<close> for \<open>i\<close> from \<open>0\<close> to \<^verbatim>\<open>attr._z\<close>.
\<close>

fun saving :: "nat list \<Rightarrow> nat \<Rightarrow> int list \<Rightarrow> order_array \<Rightarrow> order_array
     \<Rightarrow> (order_array \<times> order_array) option" where
  "saving [] z realInterleaved zs ts = Some (zs, ts)"
| "saving (i # is) z realInterleaved zs ts =
     (if i < length realInterleaved \<and> 0 \<le> realInterleaved ! i \<and> realInterleaved ! i < int z
      then saving is z realInterleaved (zs[i := Some (realInterleaved ! i)])
             (ts[nat (realInterleaved ! i) := Some (int i)])
      else None)"

text \<open>The copying loop reads every cell of both arrays.\<close>

fun copying :: "order_array \<Rightarrow> int list option" where
  "copying [] = Some []"
| "copying (None # cs) = None"
| "copying (Some c # cs) = (case copying cs of None \<Rightarrow> None | Some r \<Rightarrow> Some (c # r))"

text \<open>
  The body of the loop over the stacks, for one stack of \<open>z\<close> slices.  With order code 4
  \<^verbatim>\<open>stepFactor\<close> is assigned in every pass of the package loop before it is read, so the
  value it starts with does not matter.
\<close>

definition stack_order :: "nat \<Rightarrow> int \<Rightarrow> int \<Rightarrow> int \<Rightarrow> int \<Rightarrow> (int list \<times> int list) option" where
  "stack_order z pack ord step rewinder =
     (if pack = 0 then None
      else
        let slicesPerPackage = int z sdiv pack;
            z_slice_order = replicate z None;
            t_slice_order = replicate z None;
            filled =
              (if ord = 1 \<or> ord = 2
               then ascending_loop ord pack z 0 0 0 z_slice_order t_slice_order
               else
                 let rewinderFactor = (if ord = 3 \<or> ord = 4 then 1 else rewinder);
                     stepFactor = (if ord = 3 then 2 else step)
                 in case package_loop (nat pack) ord (int z) pack slicesPerPackage stepFactor
                           rewinderFactor 0 0 [] of
                      None \<Rightarrow> None
                    | Some realInterleaved \<Rightarrow>
                        saving [0..<z] z realInterleaved z_slice_order t_slice_order)
        in case filled of
             None \<Rightarrow> None
           | Some (zs, ts) \<Rightarrow>
               (case copying zs of
                  None \<Rightarrow> None
                | Some zo \<Rightarrow>
                    (case copying ts of None \<Rightarrow> None | Some to \<Rightarrow> Some (zo, to))))"

text \<open>
  The whole function: the stacks are given by their numbers of slices \<^verbatim>\<open>attr._z\<close>; the result
  is the pair of the members \<^verbatim>\<open>_z_slice_order\<close> and \<^verbatim>\<open>_t_slice_order\<close> after the call, both
  starting from the given contents.
\<close>

fun GetSliceAcquisitionOrder_from ::
  "nat \<Rightarrow> nat list \<Rightarrow> int list \<Rightarrow> int list \<Rightarrow> int \<Rightarrow> int \<Rightarrow> int list \<times> int list
     \<Rightarrow> (int list \<times> int list) option" where
  "GetSliceAcquisitionOrder_from dyn [] pack_num order step rewinder acc = Some acc"
| "GetSliceAcquisitionOrder_from dyn (z # stacks) pack_num order step rewinder (zo, to) =
     (if dyn < length pack_num \<and> dyn < length order then
        (case stack_order z (pack_num ! dyn) (order ! dyn) step rewinder of
           None \<Rightarrow> None
         | Some (zs, ts) \<Rightarrow>
             GetSliceAcquisitionOrder_from (Suc dyn) stacks pack_num order step rewinder
               (zo @ zs, to @ ts))
      else None)"

definition GetSliceAcquisitionOrder ::
  "nat list \<Rightarrow> int list \<Rightarrow> int list \<Rightarrow> int \<Rightarrow> int \<Rightarrow> (int list \<times> int list) option" where
  "GetSliceAcquisitionOrder stacks pack_num order step rewinder =
     GetSliceAcquisitionOrder_from 0 stacks pack_num order step rewinder ([], [])"


section \<open>Images and the reconstruction object\<close>

text \<open>
  A \<^verbatim>\<open>RealImage\<close> is a grid of \<^verbatim>\<open>GetX\<close> by \<^verbatim>\<open>GetY\<close> by \<^verbatim>\<open>GetZ\<close> voxels over one block of
  memory, \<^verbatim>\<open>Data()\<close>, in which voxel \<open>(x, y, z)\<close> is cell \<open>x + GetX * (y + GetY * z)\<close>.
  Intensities are real numbers here: rounding, infinities and NaN of the \<^verbatim>\<open>double\<close>
  arithmetic of the source are not modelled.
\<close>

record RealImage =
  GetX :: nat
  GetY :: nat
  GetZ :: nat
  Data :: "real list"

definition NumberOfVoxels :: "RealImage \<Rightarrow> nat" where
  "NumberOfVoxels im = GetX im * GetY im * GetZ im"

definition VoxelToIndex :: "RealImage \<Rightarrow> nat \<Rightarrow> nat \<Rightarrow> nat \<Rightarrow> nat" where
  "VoxelToIndex im x y z = x + GetX im * (y + GetY im * z)"

text \<open>\<^verbatim>\<open>image(x, y, z)\<close> read and written.\<close>

definition Get :: "RealImage \<Rightarrow> nat \<Rightarrow> nat \<Rightarrow> nat \<Rightarrow> real" where
  "Get im x y z = Data im ! VoxelToIndex im x y z"

definition Put :: "RealImage \<Rightarrow> nat \<Rightarrow> nat \<Rightarrow> nat \<Rightarrow> real \<Rightarrow> RealImage" where
  "Put im x y z v = im\<lparr>Data := (Data im)[VoxelToIndex im x y z := v]\<rparr>"

text \<open>\<^verbatim>\<open>image.Initialize(attr)\<close>: a grid of the given size, every voxel 0.\<close>

definition Initialize :: "nat \<Rightarrow> nat \<Rightarrow> nat \<Rightarrow> RealImage" where
  "Initialize nx ny nz = \<lparr>GetX = nx, GetY = ny, GetZ = nz, Data = replicate (nx * ny * nz) 0\<rparr>"

text \<open>An image owns exactly as many cells as its grid has voxels.\<close>

definition allocated :: "RealImage \<Rightarrow> bool" where
  "allocated im = (length (Data im) = NumberOfVoxels im)"

text \<open>
  A loop \<^verbatim>\<open>for (i = 0; i < n; i++)\<close> whose body rewrites cell \<open>i\<close> of an array from the
  index and the cell's old value.
\<close>

definition for_each_index :: "nat \<Rightarrow> (nat \<Rightarrow> 'a \<Rightarrow> 'a) \<Rightarrow> 'a list \<Rightarrow> 'a list" where
  "for_each_index n body xs = fold (\<lambda>i acc. acc[i := body i (acc ! i)]) [0..<n] xs"

text \<open>
  An entry of the coefficient matrix, \<^verbatim>\<open>POINT3D\<close>: a voxel of the volume and the PSF
  weight \<^verbatim>\<open>value\<close>.  \<^verbatim>\<open>VOXELCOEFFS\<close> is the list of one slice pixel, \<^verbatim>\<open>SLICECOEFFS\<close> the
  matrix of the lists of one slice.
\<close>

record POINT3D =
  p_x :: int
  p_y :: int
  p_z :: int
  p_value :: real

type_synonym VOXELCOEFFS = "POINT3D list"
type_synonym SLICECOEFFS = "VOXELCOEFFS list list"

text \<open>
  The members of \<^verbatim>\<open>Reconstruction\<close> that the functions below read or write, named as in
  the source without the leading underscore.
\<close>

record Reconstruction =
  slices :: "RealImage list"
  simulated_slices :: "RealImage list"
  simulated_weights :: "RealImage list"
  simulated_inside :: "RealImage list"
  bias :: "RealImage list"
  scale :: "real list"
  slice_weight :: "real list"
  slice_inside :: "bool list"
  reg_slice_weight :: "int list"
  force_excluded :: "int list"
  small_slices :: "nat list"
  volcoeffs :: "SLICECOEFFS list"
  reconstructed :: RealImage
  volume_weights :: RealImage
  mask :: RealImage
  confidence_map :: RealImage
  average_volume_weight :: real
  global_NCC_threshold :: real
  mean_s :: real
  mean_s2 :: real
  sigma_s :: real
  sigma_s2 :: real
  mix_s :: real
  mix :: real
  sigma :: real
  m :: real
  step :: real
  min_intensity :: real
  max_intensity :: real
  alpha :: real
  lambda :: real
  delta :: real
  low_intensity_cutoff :: real
  adaptive :: bool
  global_bias_correction :: bool

section \<open>The coefficient engine\<close>

text \<open>
  The search of \<^verbatim>\<open>_force_excluded\<close> that \<^verbatim>\<open>CoeffInit\<close> and \<^verbatim>\<open>GaussianReconstruction\<close> run
  for every slice: \<^verbatim>\<open>if (inputIndex == _force_excluded[fe]) { excluded = true; break; }\<close>.
\<close>

fun excluded :: "nat \<Rightarrow> int list \<Rightarrow> bool" where
  "excluded inputIndex [] = False"
| "excluded inputIndex (fe # fes) = (if int inputIndex = fe then True else excluded inputIndex fes)"

text \<open>
  \<^verbatim>\<open>_volume_weights(p.x, p.y, p.z) += p.value\<close>.  The source does not check the
  coordinates; \<open>inside\<close> says that they are voxels of the grid, which is what the theorems
  about the accumulation assume of the entries that \<^verbatim>\<open>Parallel::CoeffInit\<close> stored.
\<close>

definition inside :: "RealImage \<Rightarrow> POINT3D \<Rightarrow> bool" where
  "inside im p = (0 \<le> p_x p \<and> p_x p < int (GetX im) \<and> 0 \<le> p_y p \<and> p_y p < int (GetY im)
                  \<and> 0 \<le> p_z p \<and> p_z p < int (GetZ im))"

definition accumulate :: "POINT3D \<Rightarrow> RealImage \<Rightarrow> RealImage" where
  "accumulate p im =
     Put im (nat (p_x p)) (nat (p_y p)) (nat (p_z p))
       (Get im (nat (p_x p)) (nat (p_y p)) (nat (p_z p)) + p_value p)"

text \<open>The three inner loops of \<^verbatim>\<open>CoeffInit\<close> for one slice that is not excluded.\<close>

definition accumulate_slice :: "RealImage \<Rightarrow> SLICECOEFFS \<Rightarrow> RealImage \<Rightarrow> RealImage" where
  "accumulate_slice slice coeffs vw =
     fold (\<lambda>(i, j). fold accumulate (coeffs ! i ! j))
       (List.product [0..<GetX slice] [0..<GetY slice]) vw"

text \<open>
  \<^verbatim>\<open>Reconstruction::CoeffInit\<close>.  \<^verbatim>\<open>Parallel::CoeffInit\<close> is not part of \<^verbatim>\<open>Reconstruction.cc\<close>; what it
  stores in \<^verbatim>\<open>_volcoeffs\<close> and \<^verbatim>\<open>_slice_inside\<close> are the first two arguments.  The serial loop
  then builds \<^verbatim>\<open>_volume_weights\<close>, and the last loop averages it over the voxels whose mask
  is 1.
\<close>

definition CoeffInit :: "SLICECOEFFS list \<Rightarrow> bool list \<Rightarrow> Reconstruction \<Rightarrow> Reconstruction" where
  "CoeffInit coeffs insides r =
     (let vw0 = Initialize (GetX (reconstructed r)) (GetY (reconstructed r))
                  (GetZ (reconstructed r));
          vw = fold (\<lambda>inputIndex vw.
                       if excluded inputIndex (force_excluded r) then vw
                       else accumulate_slice (slices r ! inputIndex) (coeffs ! inputIndex) vw)
                 [0..<length (slices r)] vw0;
          inmask = filter (\<lambda>i. Data (mask r) ! i = 1) [0..<NumberOfVoxels vw];
          sum = sum_list (map (\<lambda>i. Data vw ! i) inmask);
          num = length inmask
      in r\<lparr>volcoeffs := coeffs, slice_inside := insides, volume_weights := vw,
            average_volume_weight := sum / real num\<rparr>)"

text \<open>
  All entries of the coefficient lists of the slices that are not force-excluded, in the
  order of the slices.
\<close>

definition contributing_entries :: "Reconstruction \<Rightarrow> POINT3D list" where
  "contributing_entries r =
     concat (map (\<lambda>inputIndex. if excluded inputIndex (force_excluded r) then []
                                 else concat (concat (volcoeffs r ! inputIndex)))
               [0..<length (slices r)])"

text \<open>The entries that reference voxel \<open>(x, y, z)\<close>.\<close>

definition references :: "nat \<Rightarrow> nat \<Rightarrow> nat \<Rightarrow> POINT3D \<Rightarrow> bool" where
  "references x y z p = (p_x p = int x \<and> p_y p = int y \<and> p_z p = int z)"

text \<open>
  The shape \<^verbatim>\<open>Parallel::CoeffInit\<close> gives the matrix of a slice: \<^verbatim>\<open>GetX\<close> rows of \<^verbatim>\<open>GetY\<close>
  lists.
\<close>

definition shaped :: "RealImage \<Rightarrow> SLICECOEFFS \<Rightarrow> bool" where
  "shaped slice coeffs =
     (length coeffs = GetX slice \<and> list_all (\<lambda>row. length row = GetY slice) coeffs)"

text \<open>
  The constructor \<^verbatim>\<open>Reconstruction::Reconstruction()\<close>.  It sets the parameters below; the
  arrays start empty and the images without voxels.  The numbers it does not set
  (\<^verbatim>\<open>_mean_s\<close>, \<^verbatim>\<open>_mean_s2\<close>, \<^verbatim>\<open>_sigma\<close>, \<^verbatim>\<open>_m\<close>, the intensity range, the average volume weight)
  are indeterminate in the source and 0 here; no theorem below depends on them.
\<close>

definition Reconstruction_new :: Reconstruction where
  "Reconstruction_new =
     \<lparr>slices = [], simulated_slices = [], simulated_weights = [], simulated_inside = [],
      bias = [], scale = [], slice_weight = [], slice_inside = [], reg_slice_weight = [],
      force_excluded = [], small_slices = [], volcoeffs = [],
      reconstructed = Initialize 0 0 0, volume_weights = Initialize 0 0 0,
      mask = Initialize 0 0 0, confidence_map = Initialize 0 0 0,
      average_volume_weight = 0,
      global_NCC_threshold = 0.65,
      mean_s = 0, mean_s2 = 0,
      sigma_s = 0.025, sigma_s2 = 0.025, mix_s = 0.9, mix = 0.9,
      sigma = 0, m = 0,
      step = 0.0001,
      min_intensity = 0, max_intensity = 0,
      alpha = (0.05 / 0.1) * 1 * 1, lambda = 0.1, delta = 1,
      low_intensity_cutoff = 0.01,
      adaptive = False, global_bias_correction = False\<rparr>"


section \<open>EM robust statistics\<close>

text \<open>
  The loop that \<^verbatim>\<open>InitializeEMValues\<close>, \<^verbatim>\<open>InitializeRobustStatistics\<close> and \<^verbatim>\<open>EStep\<close> run over
  the force-exclusion list:
  \<^verbatim>\<open>if (_force_excluded[i] > 0 && _force_excluded[i] < _slices.size()) a[_force_excluded[i]] = v\<close>.
  The entries are \<^verbatim>\<open>int\<close>; for a positive entry the comparison with the unsigned size is the
  comparison of the numbers.
\<close>

definition force_exclude :: "int list \<Rightarrow> nat \<Rightarrow> 'a \<Rightarrow> 'a list \<Rightarrow> 'a list" where
  "force_exclude fes n v xs =
     fold (\<lambda>fe acc. if fe > 0 \<and> fe < int n then acc[nat fe := v] else acc) fes xs"

text \<open>
  The pixel loop of \<^verbatim>\<open>InitializeRobustStatistics\<close> for one slice: the sum of the squared
  errors and the number of pixels counted, \<^verbatim>\<open>sigma_values[inputIndex]\<close> and
  \<^verbatim>\<open>sigma_numbers[inputIndex]\<close>.  The subtraction is done on a copy of the slice.
\<close>

definition slice_sigma :: "RealImage \<Rightarrow> RealImage \<Rightarrow> RealImage \<Rightarrow> RealImage \<Rightarrow> real \<times> nat" where
  "slice_sigma slice sim_inside sim_weights sim =
     fold (\<lambda>(i, j) (sigma_value, sigma_number).
             if Get slice i j 0 > - 0.01 \<and> Get sim_inside i j 0 = 1 \<and> Get sim_weights i j 0 > 0.99
             then (sigma_value + (Get slice i j 0 - Get sim i j 0) * (Get slice i j 0 - Get sim i j 0),
                   Suc sigma_number)
             else (sigma_value, sigma_number))
       (List.product [0..<GetX slice] [0..<GetY slice]) (0, 0)"

text \<open>\<^verbatim>\<open>Reconstruction::InitializeRobustStatistics\<close>.\<close>

definition InitializeRobustStatistics :: "Reconstruction \<Rightarrow> Reconstruction" where
  "InitializeRobustStatistics r =
     (let n = length (slices r);
          sigmas = map (\<lambda>inputIndex.
                      slice_sigma (slices r ! inputIndex) (simulated_inside r ! inputIndex)
                        (simulated_weights r ! inputIndex) (simulated_slices r ! inputIndex))
                    [0..<n];
          outside = for_each_index n
                      (\<lambda>inputIndex w. if \<not> slice_inside r ! inputIndex then 0 else w)
                      (slice_weight r);
          sigma_sum = sum_list (map fst sigmas);
          num = sum_list (map snd sigmas);
          forced = force_exclude (force_excluded r) n 0 outside
      in r\<lparr>slice_weight := forced,
            sigma := sigma_sum / real num,
            sigma_s := 0.025,
            mix := 0.9,
            mix_s := 0.9,
            m := 1 / (2.1 * max_intensity r - 1.9 * min_intensity r)\<rparr>)"

text \<open>
  \<^verbatim>\<open>Reconstruction::EStep\<close>.  Its local array \<^verbatim>\<open>slice_potential\<close> has one cell per slice and is
  filled by \<^verbatim>\<open>Parallel::EStep\<close>, which is not part of \<^verbatim>\<open>Reconstruction.cc\<close>: the potentials it leaves are an
  argument.  First the three loops that set potentials to \<open>-1\<close>: the force-excluded slices,
  the small slices, and the slices with a scale below 0.2 or above 5.
\<close>

definition EStep_potentials :: "real list \<Rightarrow> Reconstruction \<Rightarrow> real list" where
  "EStep_potentials slice_potential r =
     (let forced = force_exclude (force_excluded r) (length (slices r)) (- 1) slice_potential;
          small = fold (\<lambda>i acc. acc[i := - 1]) (small_slices r) forced
      in for_each_index (length small)
           (\<lambda>inputIndex p. if scale r ! inputIndex < 0.2 \<or> scale r ! inputIndex > 5
                             then - 1 else p)
           small)"

text \<open>
  The sums of the first reduction loop, over the slices with a potential that is not
  negative: \<open>(sum, den, sum2, den2, maxs, mins)\<close>, starting from \<open>(0, 0, 0, 0, 0, 1)\<close>.
\<close>

definition EStep_means ::
  "nat \<Rightarrow> real list \<Rightarrow> real list \<Rightarrow> real \<times> real \<times> real \<times> real \<times> real \<times> real" where
  "EStep_means n slice_potential weights =
     fold (\<lambda>inputIndex (sum, den, sum2, den2, maxs, mins).
             if slice_potential ! inputIndex \<ge> 0 then
               (sum + slice_potential ! inputIndex * weights ! inputIndex,
                den + weights ! inputIndex,
                sum2 + slice_potential ! inputIndex * (1 - weights ! inputIndex),
                den2 + (1 - weights ! inputIndex),
                (if slice_potential ! inputIndex > maxs then slice_potential ! inputIndex else maxs),
                (if slice_potential ! inputIndex < mins then slice_potential ! inputIndex else mins))
             else (sum, den, sum2, den2, maxs, mins))
       [0..<n] (0, 0, 0, 0, 0, 1)"

text \<open>The sums of the second reduction loop: \<open>(sum, den, sum2, den2)\<close>.\<close>

definition EStep_variances ::
  "nat \<Rightarrow> real list \<Rightarrow> real list \<Rightarrow> real \<Rightarrow> real \<Rightarrow> real \<times> real \<times> real \<times> real" where
  "EStep_variances n slice_potential weights means means2 =
     fold (\<lambda>inputIndex (sum, den, sum2, den2).
             if slice_potential ! inputIndex \<ge> 0 then
               (sum + (slice_potential ! inputIndex - means) * (slice_potential ! inputIndex - means)
                        * weights ! inputIndex,
                den + weights ! inputIndex,
                sum2 + (slice_potential ! inputIndex - means2)
                         * (slice_potential ! inputIndex - means2) * (1 - weights ! inputIndex),
                den2 + (1 - weights ! inputIndex))
             else (sum, den, sum2, den2))
       [0..<n] (0, 0, 0, 0)"

text \<open>
  The body of the loop that calculates the slice weights, for one slice: its potential, the
  parameters just estimated, \<^verbatim>\<open>den\<close> of the second reduction, the old \<^verbatim>\<open>_mix_s\<close> and the old
  weight of the slice.  \<^verbatim>\<open>G\<close> is the Gaussian of the header file, an argument here.
\<close>

definition EStep_weight ::
  "(real \<Rightarrow> real \<Rightarrow> real) \<Rightarrow> real \<Rightarrow> real \<Rightarrow> real \<Rightarrow> real \<Rightarrow> real \<Rightarrow> real \<Rightarrow> real
     \<Rightarrow> real \<Rightarrow> real" where
  "EStep_weight G den means means2 sigmas sigmas2 mixs potential w =
     (if potential = - 1 then 0
      else if den \<le> 0 \<or> means2 \<le> means then 1
      else
        let gs1 = (if potential < means2 then G (potential - means) sigmas else 0);
            gs2 = (if potential > means then G (potential - means2) sigmas2 else 0);
            likelihood = gs1 * mixs + gs2 * (1 - mixs)
        in if likelihood > 0 then gs1 * mixs / likelihood
           else
             let w1 = (if potential \<le> means then 1 else w);
                 w2 = (if potential \<ge> means2 then 0 else w1)
             in if potential < means2 \<and> potential > means then 1 else w2)"

text \<open>
  The blocks that set \<^verbatim>\<open>_sigma_s\<close> and \<^verbatim>\<open>_sigma_s2\<close> from the sums of the second reduction:
  a variance that is not positive, or an empty class, is replaced.
\<close>

definition EStep_sigma_s :: "real \<Rightarrow> real \<Rightarrow> real \<Rightarrow> real" where
  "EStep_sigma_s vsum vden stp =
     (if vsum > 0 \<and> vden > 0 then max (vsum / vden) (stp * stp / 6.28) else 0.025)"

definition EStep_sigma_s2 :: "real \<Rightarrow> real \<Rightarrow> real \<Rightarrow> real \<Rightarrow> real \<Rightarrow> real" where
  "EStep_sigma_s2 vsum2 vden2 means means2 stp =
     (if vsum2 > 0 \<and> vden2 > 0 then max (vsum2 / vden2) (stp * stp / 6.28)
      else max ((means2 - means) * (means2 - means) / 4) (stp * stp / 6.28))"

text \<open>The last loop: the sum of the new weights and the number of valid potentials.\<close>

definition EStep_mix :: "nat \<Rightarrow> real list \<Rightarrow> real list \<Rightarrow> real \<times> nat" where
  "EStep_mix n slice_potential weights =
     fold (\<lambda>inputIndex (sum, num).
             if slice_potential ! inputIndex \<ge> 0
             then (sum + weights ! inputIndex, Suc num) else (sum, num))
       [0..<n] (0, 0)"

definition EStep :: "(real \<Rightarrow> real \<Rightarrow> real) \<Rightarrow> real list \<Rightarrow> Reconstruction \<Rightarrow> Reconstruction" where
  "EStep G slice_potential0 r =
     (let n = length (slices r);
          slice_potential = EStep_potentials slice_potential0 r;
          (sum, den, sum2, den2, maxs, mins) = EStep_means n slice_potential (slice_weight r);
          means = (if den > 0 then sum / den else mins);
          means2 = (if den2 > 0 then sum2 / den2 else (maxs + means) / 2);
          (vsum, vden, vsum2, vden2) =
             EStep_variances n slice_potential (slice_weight r) means means2;
          sigmas = EStep_sigma_s vsum vden (step r);
          sigmas2 = EStep_sigma_s2 vsum2 vden2 means means2 (step r);
          weights = for_each_index n
                      (\<lambda>inputIndex w.
                          EStep_weight G vden means means2 sigmas sigmas2 (mix_s r)
                            (slice_potential ! inputIndex) w)
                      (slice_weight r);
          (msum, num) = EStep_mix n slice_potential weights;
          mixs = (if num > 0 then msum / real num else 0.9)
      in r\<lparr>slice_weight := weights, mean_s := means, mean_s2 := means2,
            sigma_s := sigmas, sigma_s2 := sigmas2, mix_s := mixs\<rparr>)"

text \<open>
  \<^verbatim>\<open>Reconstruction::MStep\<close>.  \<^verbatim>\<open>Parallel::MStep\<close> is not part of \<^verbatim>\<open>Reconstruction.cc\<close>; the five sums it
  returns are arguments.  The function ends the process with \<^verbatim>\<open>exit(1)\<close> when \<^verbatim>\<open>mix\<close> is not
  positive.
\<close>

datatype failure = Exit int

definition MStep ::
  "int \<Rightarrow> real \<Rightarrow> real \<Rightarrow> real \<Rightarrow> real \<Rightarrow> real \<Rightarrow> Reconstruction \<Rightarrow> failure + Reconstruction" where
  "MStep iter sigma0 mix0 num0 min0 max0 r =
     (if mix0 > 0 then
        let s = sigma0 / mix0;
            s' = (if s < step r * step r / 6.28 then step r * step r / 6.28 else s);
            mix' = (if iter > 1 then mix0 / num0 else mix r)
        in Inr (r\<lparr>sigma := s', mix := mix', m := 1 / (max0 - min0)\<rparr>)
      else Inl (Exit 1))"


section \<open>Structural exclusion\<close>

text \<open>
  \<^verbatim>\<open>Reconstruction::ComputeNCC\<close> on the memory of the two images.  The three passes test the
  same condition, both values above \<^verbatim>\<open>threshold\<close>.  The optional output \<^verbatim>\<open>count\<close> is not
  modelled.  (The statement \<^verbatim>\<open>stacks[j] = move(stack);\<close> that \<^verbatim>\<open>Reconstruction.cc\<close> shows after
  \<^verbatim>\<open>CC_slice = 0;\<close> closes the loop of \<^verbatim>\<open>BackgroundFiltering\<close>, the function before this one, and is
  modelled there.)
\<close>

definition ComputeNCC :: "RealImage \<Rightarrow> RealImage \<Rightarrow> real \<Rightarrow> real" where
  "ComputeNCC slice_1 slice_2 threshold =
     (let slice_1_N = NumberOfVoxels slice_1;
          slice_2_N = NumberOfVoxels slice_2;
          slice_1_ptr = Data slice_1;
          slice_2_ptr = Data slice_2;
          (slice_1_sum, slice_1_n) =
            fold (\<lambda>j (s, n). if slice_1_ptr ! j > threshold \<and> slice_2_ptr ! j > threshold
                               then (s + slice_1_ptr ! j, Suc n) else (s, n))
              [0..<slice_1_N] (0, 0);
          slice_1_m = slice_1_sum / real slice_1_n;
          (slice_2_sum, slice_2_n) =
            fold (\<lambda>j (s, n). if slice_1_ptr ! j > threshold \<and> slice_2_ptr ! j > threshold
                               then (s + slice_2_ptr ! j, Suc n) else (s, n))
              [0..<slice_2_N] (0, 0);
          slice_2_m = slice_2_sum / real slice_2_n
      in if slice_1_n < 5 \<or> slice_2_n < 5 then - 1
         else
           let (diff_sum, slice_1_sq, slice_2_sq) =
                 fold (\<lambda>j (d, sq1, sq2).
                         if slice_1_ptr ! j > threshold \<and> slice_2_ptr ! j > threshold
                         then (d + (slice_1_ptr ! j - slice_1_m) * (slice_2_ptr ! j - slice_2_m),
                               sq1 + (slice_1_ptr ! j - slice_1_m)\<^sup>2,
                               sq2 + (slice_2_ptr ! j - slice_2_m)\<^sup>2)
                         else (d, sq1, sq2))
                   [0..<slice_1_N] (0, 0, 0)
           in if slice_1_sq * slice_2_sq > 0
              then diff_sum / sqrt (slice_1_sq * slice_2_sq) else 0)"

text \<open>
  \<^verbatim>\<open>Reconstruction::StructuralExclusion\<close>, the end of the loop body: \<open>prepared ! i\<close> is the pair
  of images \<^verbatim>\<open>(target, output)\<close> that the body hands to \<^verbatim>\<open>ComputeNCC\<close> for slice \<open>i\<close>.
  \<open>StructuralExclusion_ncc\<close> is the value stored in \<^verbatim>\<open>reg_ncc[inputIndex]\<close>: the result of
  \<^verbatim>\<open>ComputeNCC\<close> with \<open>-1\<close> replaced by 1.  \<open>StructuralExclusion_prepared\<close> below builds the
  pairs as the beginning of the loop body does.
\<close>

definition StructuralExclusion_ncc :: "(RealImage \<times> RealImage) list \<Rightarrow> nat \<Rightarrow> real" where
  "StructuralExclusion_ncc prepared inputIndex =
     (let output_ncc = ComputeNCC (fst (prepared ! inputIndex)) (snd (prepared ! inputIndex)) 0
      in if output_ncc = - 1 then 1 else output_ncc)"

definition StructuralExclusion :: "(RealImage \<times> RealImage) list \<Rightarrow> Reconstruction \<Rightarrow> Reconstruction" where
  "StructuralExclusion prepared r =
     r\<lparr>reg_slice_weight :=
         for_each_index (length (slices r))
           (\<lambda>inputIndex w. if StructuralExclusion_ncc prepared inputIndex > global_NCC_threshold r
                             then 1 else - 1)
           (reg_slice_weight r)\<rparr>"

text \<open>The voxelwise product \<^verbatim>\<open>im *= other\<close> of two images on one grid.\<close>

definition multiply_by :: "RealImage \<Rightarrow> RealImage \<Rightarrow> RealImage" where
  "multiply_by im other =
     im\<lparr>Data := for_each_index (NumberOfVoxels im) (\<lambda>i v. v * Data other ! i) (Data im)\<rparr>"

text \<open>
  The beginning of the loop body of \<^verbatim>\<open>StructuralExclusion\<close> for one slice.  The filters of the
  library are not part of \<^verbatim>\<open>Reconstruction.cc\<close>; what they compute is the argument
  \<open>(resampled, blurred, slice_mask)\<close>: the volume resampled to the slice by
  \<^verbatim>\<open>imagetransformation.Run()\<close>, which writes \<^verbatim>\<open>output\<close>; the slice blurred by
  \<^verbatim>\<open>GaussianBlurringWithPadding\<close>, which writes \<^verbatim>\<open>target\<close>; and the mask of the volume brought to
  the slice by \<^verbatim>\<open>TransformMask\<close>.  The source then multiplies \<^verbatim>\<open>target\<close> by the mask, calls
  \<^verbatim>\<open>output.Initialize(_slices[inputIndex].Attributes())\<close>, which replaces the resampled volume
  by an image of zeros on the grid of the slice, and multiplies \<^verbatim>\<open>output\<close> by the mask.
\<close>

definition StructuralExclusion_images ::
  "RealImage \<Rightarrow> RealImage \<times> RealImage \<times> RealImage \<Rightarrow> RealImage \<times> RealImage" where
  "StructuralExclusion_images slice = (\<lambda>(resampled, blurred, slice_mask).
     let output = resampled;
         target = multiply_by blurred slice_mask;
         output = Initialize (GetX slice) (GetY slice) (GetZ slice);
         output = multiply_by output slice_mask
     in (target, output))"

text \<open>
  The pairs \<^verbatim>\<open>(target, output)\<close> of all slices; \<open>filtered ! i\<close> is what the library computes
  for slice \<open>i\<close>.  \<^verbatim>\<open>Reconstruction::StructuralExclusion\<close> as a whole is
  \<open>StructuralExclusion (StructuralExclusion_prepared filtered r) r\<close>.
\<close>

definition StructuralExclusion_prepared ::
  "(RealImage \<times> RealImage \<times> RealImage) list \<Rightarrow> Reconstruction \<Rightarrow> (RealImage \<times> RealImage) list" where
  "StructuralExclusion_prepared filtered r =
     map (\<lambda>inputIndex. StructuralExclusion_images (slices r ! inputIndex) (filtered ! inputIndex))
       [0..<length (slices r)]"


section \<open>Reconstruction quality\<close>

text \<open>
  The pixel loop of \<^verbatim>\<open>EvaluateReconQuality\<close> for one slice.  \<^verbatim>\<open>nt\<close> is a local image, assigned
  from the stored slice by \<^verbatim>\<open>nt = _slices[inputIndex]\<close>, which copies the voxels; \<^verbatim>\<open>ns\<close> is a
  reference to the simulated slice.  The loop rewrites pixels of \<^verbatim>\<open>nt\<close>.  The result is the
  final \<^verbatim>\<open>nt\<close> and the NRMSE of the slice.
\<close>

definition slice_nrmse :: "RealImage \<Rightarrow> RealImage \<Rightarrow> RealImage \<Rightarrow> real \<Rightarrow> RealImage \<times> real" where
  "slice_nrmse slice ns b scl =
     (let (nt, s_diff, s_t, s_n) =
            fold (\<lambda>(x, y) (nt, s_diff, s_t, s_n).
                    if Get nt x y 0 > 0 \<and> Get ns x y 0 > 0 then
                      let nt' = Put nt x y 0 (Get nt x y 0 * (exp (- Get b x y 0) * scl))
                      in (nt',
                          s_diff + (Get nt' x y 0 - Get ns x y 0) * (Get nt' x y 0 - Get ns x y 0),
                          s_t + Get nt' x y 0,
                          Suc s_n)
                    else (nt, s_diff, s_t, s_n))
              (List.product [0..<GetX slice] [0..<GetY slice]) (slice, 0, 0, 0 :: nat)
      in (nt, if s_n > 0 then sqrt (s_diff / real s_n) / (s_t / real s_n) else 0))"

text \<open>
  \<^verbatim>\<open>Reconstruction::EvaluateReconQuality\<close>: the mean NRMSE over the slices with a positive
  NRMSE, and the object after the call.  The function assigns to its locals \<^verbatim>\<open>nt\<close>,
  \<^verbatim>\<open>rmse_values\<close> and \<^verbatim>\<open>rmse_numbers\<close> only; no member is written.
\<close>

definition EvaluateReconQuality :: "int \<Rightarrow> Reconstruction \<Rightarrow> real \<times> Reconstruction" where
  "EvaluateReconQuality stackIndex r =
     (let rmse_values =
            map (\<lambda>inputIndex.
                   snd (slice_nrmse (slices r ! inputIndex) (simulated_slices r ! inputIndex)
                          (bias r ! inputIndex) (scale r ! inputIndex)))
              [0..<length (slices r)];
          rmse_numbers = map (\<lambda>nrmse. if nrmse > 0 then 1 else 0 :: nat) rmse_values;
          rmse_total = sum_list rmse_values;
          slice_n = sum_list rmse_numbers
      in (if slice_n > 0 then rmse_total / real slice_n else 0, r))"

section \<open>Background filtering\<close>

text \<open>
  \<^verbatim>\<open>stacks[j].GetRegion(0, 0, i, GetX, GetY, i + 1)\<close>: slice \<open>i\<close> of a stack as an image of its
  own.
\<close>

definition GetRegion :: "RealImage \<Rightarrow> nat \<Rightarrow> RealImage" where
  "GetRegion im i =
     \<lparr>GetX = GetX im, GetY = GetY im, GetZ = 1,
      Data = take (GetX im * GetY im) (drop (i * (GetX im * GetY im)) (Data im))\<rparr>"

text \<open>
  The body of the loop over the stacks in \<^verbatim>\<open>BackgroundFiltering\<close>.  \<open>gb2\<close> and \<open>gb3\<close> are
  the two \<^verbatim>\<open>GaussianBlurring\<close> filters of the library, run in place on an image.  \<^verbatim>\<open>stack\<close>
  starts as a copy of \<^verbatim>\<open>stacks[j]\<close>, every pixel of it is assigned, and it is moved back
  into \<^verbatim>\<open>stacks[j]\<close>.
\<close>

definition filter_stack ::
  "(RealImage \<Rightarrow> RealImage) \<Rightarrow> (RealImage \<Rightarrow> RealImage) \<Rightarrow> RealImage \<Rightarrow> RealImage" where
  "filter_stack gb2 gb3 stack_j =
     (let global_blurred = gb2 stack_j
      in fold (\<lambda>i stack.
                 let tmp_slice_b = gb3 (GetRegion stack_j i);
                     tmp_slice = gb2 (GetRegion stack_j i)
                 in fold (\<lambda>(x, y) stack.
                            let stack' = Put stack x y i
                                  (Get tmp_slice_b x y 0 + Get global_blurred x y i
                                     - Get tmp_slice x y 0)
                            in if Get stack' x y i < 0 then Put stack' x y i 1 else stack')
                      (List.product [0..<GetX stack_j] [0..<GetY stack_j]) stack)
           [0..<GetZ stack_j] stack_j)"

definition BackgroundFiltering ::
  "(RealImage \<Rightarrow> RealImage) \<Rightarrow> (RealImage \<Rightarrow> RealImage) \<Rightarrow> RealImage list \<Rightarrow> RealImage list" where
  "BackgroundFiltering gb2 gb3 stacks =
     for_each_index (length stacks) (\<lambda>j stack_j. filter_stack gb2 gb3 stack_j) stacks"

text \<open>The value the pixel loop leaves at a pixel, from the three blurred values.\<close>

definition filtered_value :: "real \<Rightarrow> real \<Rightarrow> real \<Rightarrow> real" where
  "filtered_value slice_b global slice_g =
     (if slice_b + global - slice_g < 0 then 1 else slice_b + global - slice_g)"


section \<open>Super-resolution\<close>

text \<open>
  The two tests that bound an intensity, \<^verbatim>\<open>if (p < lo) p = lo; if (p > hi) p = hi;\<close>, as
  \<^verbatim>\<open>Superresolution\<close> and \<^verbatim>\<open>BiasCorrectVolume\<close> write them with
  \<open>lo = _min_intensity * 0.9\<close> and \<open>hi = _max_intensity * 1.1\<close>.
\<close>

definition bound_intensity :: "real \<Rightarrow> real \<Rightarrow> real \<Rightarrow> real" where
  "bound_intensity lo hi p = (let p' = (if p < lo then lo else p) in if p' > hi then hi else p')"

text \<open>
  The first half of \<^verbatim>\<open>Reconstruction::Superresolution\<close>, up to the loop that bounds the
  intensities.  \<^verbatim>\<open>SliceDifference\<close> fills \<^verbatim>\<open>_slice_dif\<close>, which only
  \<^verbatim>\<open>Parallel::Superresolution\<close> reads; that class is not part of \<^verbatim>\<open>Reconstruction.cc\<close>, and the images
  \<^verbatim>\<open>addon\<close> and \<^verbatim>\<open>confidence_map\<close> it computes are arguments.
\<close>

definition Superresolution_update :: "RealImage \<Rightarrow> RealImage \<Rightarrow> Reconstruction \<Rightarrow> Reconstruction" where
  "Superresolution_update addon0 confidence_map0 r =
     (let n = NumberOfVoxels addon0;
          pcm = Data confidence_map0;
          addon =
            (if \<not> adaptive r
             then addon0\<lparr>Data := for_each_index n (\<lambda>i a. if pcm ! i > 0 then a / pcm ! i else a)
                                    (Data addon0)\<rparr>
             else addon0);
          cmap =
            (if \<not> adaptive r
             then confidence_map0\<lparr>Data := for_each_index n (\<lambda>i c. if c > 0 then 1 else c) pcm\<rparr>
             else confidence_map0);
          updated = for_each_index (NumberOfVoxels (reconstructed r))
                      (\<lambda>i v. v + Data addon ! i * alpha r) (Data (reconstructed r));
          bounded = for_each_index (NumberOfVoxels (reconstructed r))
                      (\<lambda>i v. bound_intensity (min_intensity r * 0.9) (max_intensity r * 1.1) v)
                      updated
      in r\<lparr>reconstructed := (reconstructed r)\<lparr>Data := bounded\<rparr>, confidence_map := cmap\<rparr>)"

text \<open>
  \<^verbatim>\<open>Reconstruction::AdaptiveRegularization\<close>: the factors \<open>1 / |d|\<close> of the 13 directions, 13
  copies of the volume for the edge weights, and the two passes.  The table \<^verbatim>\<open>_directions\<close>
  and the classes \<^verbatim>\<open>Parallel::AdaptiveRegularization1\<close> and \<^verbatim>\<open>Parallel::AdaptiveRegularization2\<close>
  are declared outside \<^verbatim>\<open>Reconstruction.cc\<close> and are arguments: \<open>pass1 r b factor original\<close> is the
  array \<^verbatim>\<open>b\<close> as the first pass leaves it, and \<open>pass2 r b original2 i\<close> the value the second
  pass leaves in voxel \<open>i\<close> of \<^verbatim>\<open>_reconstructed\<close>.  The warning printed when
  \<open>alpha * lambda / delta\<^sup>2 > 0.068\<close> changes nothing.
\<close>

definition AdaptiveRegularization ::
  "(int \<times> int \<times> int) list
     \<Rightarrow> (Reconstruction \<Rightarrow> RealImage list \<Rightarrow> real list \<Rightarrow> RealImage \<Rightarrow> RealImage list)
     \<Rightarrow> (Reconstruction \<Rightarrow> RealImage list \<Rightarrow> RealImage \<Rightarrow> nat \<Rightarrow> real)
     \<Rightarrow> int \<Rightarrow> RealImage \<Rightarrow> Reconstruction \<Rightarrow> Reconstruction" where
  "AdaptiveRegularization directions pass1 pass2 iter original r =
     (let factor = map (\<lambda>i. let d = directions ! i
                            in 1 / real_of_int (\<bar>fst d\<bar> + \<bar>fst (snd d)\<bar> + \<bar>snd (snd d)\<bar>))
                     [0..<13];
          b = pass1 r (replicate 13 (reconstructed r)) factor original;
          original2 = reconstructed r
      in r\<lparr>reconstructed := (reconstructed r)\<lparr>Data :=
             for_each_index (NumberOfVoxels (reconstructed r)) (\<lambda>i v. pass2 r b original2 i)
               (Data (reconstructed r))\<rparr>\<rparr>)"

text \<open>
  A voxel of the volume as \<^verbatim>\<open>BiasCorrectVolume\<close> leaves it: a number, or the value \<^verbatim>\<open>NaN\<close> of
  the floating-point arithmetic.
\<close>

datatype double = Number real | NaN

text \<open>
  \<^verbatim>\<open>Reconstruction::BiasCorrectVolume\<close>.  \<open>gb\<close> is the library's \<^verbatim>\<open>GaussianBlurring\<close> with
  \<^verbatim>\<open>_sigma_bias\<close>, run in place on the residual and on the weights.  The last loop divides
  the voxels whose mask is 1 by the bias field \<^verbatim>\<open>exp(pr[i] / pw[i])\<close> and bounds them; the
  other voxels of the volume are not written.  Where the blurred weight and the blurred
  residual are both 0 the quotient is \<^verbatim>\<open>0 / 0\<close>, which is \<^verbatim>\<open>NaN\<close>: the bias field and the
  corrected voxel are \<^verbatim>\<open>NaN\<close> as well, both tests of the bound are false for \<^verbatim>\<open>NaN\<close>, and the
  voxel stays \<^verbatim>\<open>NaN\<close>.  The result is the memory of \<^verbatim>\<open>_reconstructed\<close> after the call.  It is
  \<open>None\<close> where the real numbers do not follow the source: when the first loop takes the
  logarithm of a number that is not positive, or when a quotient \<^verbatim>\<open>pr[i] / pw[i]\<close> is infinite
  (\<open>pw[i] = 0\<close> with \<open>pr[i] \<noteq> 0\<close>).
\<close>

definition BiasCorrectVolume ::
  "(RealImage \<Rightarrow> RealImage) \<Rightarrow> RealImage \<Rightarrow> Reconstruction \<Rightarrow> double list option" where
  "BiasCorrectVolume gb original r =
     (let n = NumberOfVoxels (reconstructed r);
          po = Data original;
          pm = Data (mask r);
          pv = Data (reconstructed r);
          low = low_intensity_cutoff r * max_intensity r;
          residual0 = (reconstructed r)\<lparr>Data :=
                        for_each_index n
                          (\<lambda>i p. if pm ! i = 1 \<and> po ! i > low \<and> p > low
                                   then ln (p / po ! i) else 0)
                          pv\<rparr>;
          weights0 = (mask r)\<lparr>Data :=
                        for_each_index n
                          (\<lambda>i w. if w = 1 \<and> po ! i > low \<and> pv ! i > low then w else 0)
                          pm\<rparr>;
          pr = Data (gb residual0);
          pw = Data (gb weights0)
      in if list_all (\<lambda>i. (if pm ! i = 1 \<and> po ! i > low \<and> pv ! i > low
                                then 0 < pv ! i / po ! i else True)
                           \<and> (if pm ! i = 1 \<and> pw ! i = 0 then pr ! i = 0 else True))
              [0..<n]
         then Some (for_each_index n
                      (\<lambda>i v. if pm ! i = 1
                               then if pw ! i = 0 then NaN
                                    else Number (bound_intensity (min_intensity r * 0.9)
                                                   (max_intensity r * 1.1)
                                                   (pv ! i / exp (pr ! i / pw ! i)))
                               else v)
                      (map Number pv))
         else None)"

text \<open>
  \<^verbatim>\<open>Reconstruction::Superresolution\<close>.  The result is the object as the adaptive
  regularization leaves it, together with the memory of \<^verbatim>\<open>_reconstructed\<close> at the end of the
  step: the voxels of the regularized volume, or what \<^verbatim>\<open>BiasCorrectVolume\<close> made of them.
\<close>

definition Superresolution ::
  "(RealImage \<Rightarrow> RealImage)
     \<Rightarrow> (int \<times> int \<times> int) list
     \<Rightarrow> (Reconstruction \<Rightarrow> RealImage list \<Rightarrow> real list \<Rightarrow> RealImage \<Rightarrow> RealImage list)
     \<Rightarrow> (Reconstruction \<Rightarrow> RealImage list \<Rightarrow> RealImage \<Rightarrow> nat \<Rightarrow> real)
     \<Rightarrow> RealImage \<Rightarrow> RealImage \<Rightarrow> int \<Rightarrow> Reconstruction
     \<Rightarrow> (Reconstruction \<times> double list) option" where
  "Superresolution gb directions pass1 pass2 addon0 confidence_map0 iter r =
     (let original = reconstructed r;
          regularized = AdaptiveRegularization directions pass1 pass2 iter original
                          (Superresolution_update addon0 confidence_map0 r)
      in if global_bias_correction r
         then map_option (Pair regularized) (BiasCorrectVolume gb original regularized)
         else Some (regularized, map Number (Data (reconstructed regularized))))"


section \<open>Concrete inputs\<close>

text \<open>
  Three slices over a volume of two voxels; the second slice is force-excluded.  The first
  slice has two pixels, the others one.
\<close>

definition example_volume :: Reconstruction where
  "example_volume = Reconstruction_new
     \<lparr>slices := [Initialize 1 2 1, Initialize 1 1 1, Initialize 1 1 1],
      force_excluded := [1],
      reconstructed := Initialize 2 1 1,
      mask := \<lparr>GetX = 2, GetY = 1, GetZ = 1, Data = [1, 1]\<rparr>\<rparr>"

definition example_coeffs :: "SLICECOEFFS list" where
  "example_coeffs =
     [[[[\<lparr>p_x = 0, p_y = 0, p_z = 0, p_value = 1/2\<rparr>,
         \<lparr>p_x = 1, p_y = 0, p_z = 0, p_value = 1/2\<rparr>],
        [\<lparr>p_x = 1, p_y = 0, p_z = 0, p_value = 1\<rparr>]]],
      [[[\<lparr>p_x = 1, p_y = 0, p_z = 0, p_value = 1\<rparr>]]],
      [[[\<lparr>p_x = 1, p_y = 0, p_z = 0, p_value = 1/4\<rparr>,
         \<lparr>p_x = 0, p_y = 0, p_z = 0, p_value = 3/4\<rparr>]]]]"


text \<open>
  Two slices, the first with weight 0 and the second with weight 1, and a Gaussian of
  variance \<open>s\<close> scaled by the default step, for the argument \<open>G\<close> of \<open>EStep\<close>.
\<close>

definition example_two_slices :: Reconstruction where
  "example_two_slices = Reconstruction_new
     \<lparr>slices := [Initialize 1 1 1, Initialize 1 1 1],
      scale := [1, 1],
      slice_weight := [0, 1],
      slice_inside := [True, True]\<rparr>"

definition example_G :: "real \<Rightarrow> real \<Rightarrow> real" where
  "example_G x s = 0.0001 * exp (- (x * x) / (2 * s)) / sqrt (6.28 * s)"

text \<open>Three slices with the scales 1, 6 and 0.1.\<close>

definition example_scales :: Reconstruction where
  "example_scales = Reconstruction_new
     \<lparr>slices := [Initialize 1 1 1, Initialize 1 1 1, Initialize 1 1 1],
      scale := [1, 6, 1/10],
      slice_weight := [1, 1, 1]\<rparr>"

text \<open>
  One slice of five pixels, which is its own blurred image here, a mask that covers it, and
  a resampled volume of five positive values; the correlation of the slice with the
  resampled volume is 0.
\<close>

definition example_target :: RealImage where
  "example_target = \<lparr>GetX = 5, GetY = 1, GetZ = 1, Data = [1, 3, 4, 5, 7]\<rparr>"

definition example_resampled :: RealImage where
  "example_resampled = \<lparr>GetX = 5, GetY = 1, GetZ = 1, Data = [3, 1, 2, 1, 3]\<rparr>"

definition example_slice_mask :: RealImage where
  "example_slice_mask = \<lparr>GetX = 5, GetY = 1, GetZ = 1, Data = [1, 1, 1, 1, 1]\<rparr>"

definition example_slice :: Reconstruction where
  "example_slice = Reconstruction_new
     \<lparr>slices := [\<lparr>GetX = 5, GetY = 1, GetZ = 1, Data = [1, 3, 4, 5, 7]\<rparr>],
      reg_slice_weight := [1]\<rparr>"

text \<open>The same slice against an image that is positive at only four of its pixels.\<close>

definition example_output_small :: RealImage where
  "example_output_small = \<lparr>GetX = 5, GetY = 1, GetZ = 1, Data = [1, 3, 5, 7, 0]\<rparr>"

text \<open>
  One slice of two pixels with scale 2 and no bias; the simulated slice covers the first
  pixel only.
\<close>

definition example_quality :: Reconstruction where
  "example_quality = Reconstruction_new
     \<lparr>slices := [\<lparr>GetX = 2, GetY = 1, GetZ = 1, Data = [100, 50]\<rparr>],
      simulated_slices := [\<lparr>GetX = 2, GetY = 1, GetZ = 1, Data = [180, 0]\<rparr>],
      bias := [\<lparr>GetX = 2, GetY = 1, GetZ = 1, Data = [0, 0]\<rparr>],
      scale := [2]\<rparr>"

text \<open>
  A stack of one voxel.  In the examples of the background filter the identity stands for
  both blurring filters: the blur of an image of one voxel, or of an image that is 0
  everywhere, is the image itself.
\<close>

definition example_stack :: "real \<Rightarrow> RealImage" where
  "example_stack v = \<lparr>GetX = 1, GetY = 1, GetZ = 1, Data = [v]\<rparr>"

text \<open>
  A volume of two voxels, the first inside the mask, with the parameters of the constructor,
  intensities between 10 and 100 and the global bias correction enabled.  Both voxels are
  darker than the cutoff, 1 percent of the maximal intensity.  In the example of the
  super-resolution step the identity stands for the blurring filter: it is applied to images
  that are 0 everywhere.
\<close>

definition example_sr :: Reconstruction where
  "example_sr = Reconstruction_new
     \<lparr>reconstructed := \<lparr>GetX = 2, GetY = 1, GetZ = 1, Data = [1/2, 1/2]\<rparr>,
      mask := \<lparr>GetX = 2, GetY = 1, GetZ = 1, Data = [1, 0]\<rparr>,
      min_intensity := 10, max_intensity := 100,
      global_bias_correction := True\<rparr>"

definition example_addon :: RealImage where
  "example_addon = \<lparr>GetX = 2, GetY = 1, GetZ = 1, Data = [20, 40]\<rparr>"

definition example_confidence :: RealImage where
  "example_confidence = \<lparr>GetX = 2, GetY = 1, GetZ = 1, Data = [1, 1]\<rparr>"


section \<open>Properties of the slice acquisition order\<close>

lemma find_append_case:
  "find P (xs @ ys) = (case find P xs of None \<Rightarrow> find P ys | Some x \<Rightarrow> Some x)"
  by (induction xs) auto

lemma find_least:
  "find P [0..<n] = Some k \<Longrightarrow> P k \<and> k < n \<and> (\<forall>j<k. \<not> P j)"
proof (induction n arbitrary: k)
  case 0
  then show ?case by simp
next
  case (Suc n)
  show ?case
  proof (cases "find P [0..<n]")
    case None
    then have no: "\<forall>j<n. \<not> P j" by (auto simp: find_None_iff)
    from Suc.prems None have "P n \<and> k = n" by (auto simp: find_append_case split: if_splits)
    with no show ?thesis by auto
  next
    case (Some a)
    with Suc.prems have "k = a" by (simp add: find_append_case)
    with Suc.IH [OF Some] show ?thesis by auto
  qed
qed

lemma round_sqrt_bounds:
  assumes "0 \<le> n"
  shows "\<exists>k. round_sqrt n = int k \<and> nat n \<le> k * k + k \<and> (\<forall>j<k. j * j + j < nat n)"
proof -
  let ?P = "\<lambda>k. nat n \<le> k * k + k"
  have "?P (nat n)" by (simp add: le_add2 trans_le_add2)
  then have "find ?P [0..<Suc (nat n)] \<noteq> None"
    by (auto simp: find_None_iff simp del: upt_Suc)
  then obtain k where k: "find ?P [0..<Suc (nat n)] = Some k" by auto
  from find_least [OF k] have a: "?P k" and b: "\<forall>j<k. \<not> ?P j" by auto
  from b have "\<forall>j<k. j * j + j < nat n" by (simp add: not_le)
  moreover from k have "round_sqrt n = int k" by (simp add: round_sqrt_def)
  ultimately show ?thesis using a by blast
qed

text \<open>The integer search computes what the source computes with \<^verbatim>\<open>round\<close> and \<^verbatim>\<open>sqrt\<close>.\<close>

lemma round_sqrt_correct:
  assumes "0 \<le> n"
  shows "round_sqrt n = round (sqrt (real_of_int n))"
proof -
  from round_sqrt_bounds [OF assms] obtain k where
    r: "round_sqrt n = int k" and up: "nat n \<le> k * k + k"
    and lo: "\<forall>j<k. j * j + j < nat n" by blast
  have n_eq: "real_of_int n = real (nat n)" using assms by simp
  from up have "real (nat n) \<le> real (k * k + k)" by (rule of_nat_mono)
  then have upr: "real (nat n) \<le> real k * real k + real k" by simp
  have "real k * real k + real k < (real k + 1/2)\<^sup>2"
    by (simp add: power2_eq_square algebra_simps)
  with upr have "real (nat n) < (real k + 1/2)\<^sup>2" by (rule le_less_trans)
  then have A: "sqrt (real (nat n)) < real k + 1/2"
    by (intro real_less_lsqrt) simp_all
  have B: "real k - 1/2 \<le> sqrt (real (nat n))"
  proof (cases k)
    case 0
    have "0 \<le> sqrt (real (nat n))" by simp
    then have "- (1 / 2) \<le> sqrt (real (nat n))" by linarith
    with 0 show ?thesis by simp
  next
    case (Suc j)
    with lo have "j * j + j < nat n" by simp
    then have "Suc (j * j + j) \<le> nat n" by simp
    then have "real (Suc (j * j + j)) \<le> real (nat n)" by (rule of_nat_mono)
    then have c: "real j * real j + real j + 1 \<le> real (nat n)" by simp
    have "real k = real j + 1" using Suc by simp
    then have "(real k - 1/2)\<^sup>2 = (real j + 1/2)\<^sup>2" by simp
    also have "\<dots> = real j * real j + real j + 1/4"
      by (simp add: power2_eq_square algebra_simps)
    finally have "(real k - 1/2)\<^sup>2 = real j * real j + real j + 1/4" .
    with c have "(real k - 1/2)\<^sup>2 \<le> real (nat n)" by simp
    then show ?thesis by (rule real_le_rsqrt)
  qed
  have "\<lfloor>sqrt (real (nat n)) + 1/2\<rfloor> = int k"
  proof (rule floor_unique)
    show "of_int (int k) \<le> sqrt (real (nat n)) + 1/2" using B by simp
    show "sqrt (real (nat n)) + 1/2 < of_int (int k) + 1" using A by simp
  qed
  then have "round (sqrt (real_of_int n)) = int k"
    unfolding n_eq round_def .
  with r show ?thesis by (rule trans [OF _ sym])
qed

text \<open>With order code 3 the arguments \<^verbatim>\<open>step\<close> and \<^verbatim>\<open>rewinder\<close> are not read.\<close>

lemma stack_order_default_interleaved:
  "stack_order z pack 3 step_arg rewinder_arg = stack_order z pack 3 2 1"
  by (simp add: stack_order_def)

lemma stack_order_12_4_3:
  "stack_order 12 4 3 2 1 =
     Some ([0, 8, 4, 1, 9, 5, 2, 10, 6, 3, 11, 7], [0, 3, 6, 9, 2, 5, 8, 11, 1, 4, 7, 10])"
  by code_simp

text \<open>
  Claim C4, as the source computes it: for one stack of 12 slices in 4 packages with order
  code 3, whatever the arguments \<^verbatim>\<open>step\<close> and \<^verbatim>\<open>rewinder\<close> are (the code replaces them by 2 and 1), the
  function appends the slice order \<open>[0, 8, 4, 1, 9, 5, 2, 10, 6, 3, 11, 7]\<close> to
  \<^verbatim>\<open>_z_slice_order\<close> and its inverse \<open>[0, 3, 6, 9, 2, 5, 8, 11, 1, 4, 7, 10]\<close> to
  \<^verbatim>\<open>_t_slice_order\<close>: inside each package the three slices \<open>p, p + 4, p + 8\<close> are visited
  with step 2, that is, in the order \<open>p, p + 8, p + 4\<close>.
\<close>

theorem GetSliceAcquisitionOrder_12_4_default_interleaved:
  "GetSliceAcquisitionOrder [12] [4] [3] step_arg rewinder_arg =
     Some ([0, 8, 4, 1, 9, 5, 2, 10, 6, 3, 11, 7], [0, 3, 6, 9, 2, 5, 8, 11, 1, 4, 7, 10])"
proof -
  have "stack_order 12 4 3 step_arg rewinder_arg =
        Some ([0, 8, 4, 1, 9, 5, 2, 10, 6, 3, 11, 7], [0, 3, 6, 9, 2, 5, 8, 11, 1, 4, 7, 10])"
    unfolding stack_order_default_interleaved [of 12 4 step_arg rewinder_arg]
    by (rule stack_order_12_4_3)
  then show ?thesis by (simp add: GetSliceAcquisitionOrder_def)
qed

text \<open>
  Claim C4 as stated fails: at packages 4, order code 3, step 2, rewinder 1 and 12 slices
  neither of the two produced arrays is \<open>[0, 4, 8, 1, 5, 9, 2, 6, 10, 3, 7, 11]\<close>.
\<close>

theorem GetSliceAcquisitionOrder_literal_counterexample:
  "map_option fst (GetSliceAcquisitionOrder [12] [4] [3] 2 1)
      \<noteq> Some [0, 4, 8, 1, 5, 9, 2, 6, 10, 3, 7, 11]
   \<and> map_option snd (GetSliceAcquisitionOrder [12] [4] [3] 2 1)
      \<noteq> Some [0, 4, 8, 1, 5, 9, 2, 6, 10, 3, 7, 11]"
proof -
  have "GetSliceAcquisitionOrder [12] [4] [3] 2 1 =
        Some ([0, 8, 4, 1, 9, 5, 2, 10, 6, 3, 11, 7], [0, 3, 6, 9, 2, 5, 8, 11, 1, 4, 7, 10])"
    using stack_order_12_4_3 by (simp add: GetSliceAcquisitionOrder_def)
  then show ?thesis by simp
qed


section \<open>The volume weights built by CoeffInit\<close>

text \<open>Two voxels of the grid share a memory cell only if they are the same voxel.\<close>

lemma VoxelToIndex_inject:
  assumes "x < GetX im" "y < GetY im" "x' < GetX im" "y' < GetY im"
    and "VoxelToIndex im x y z = VoxelToIndex im x' y' z'"
  shows "x = x' \<and> y = y' \<and> z = z'"
proof -
  let ?X = "GetX im" and ?Y = "GetY im"
  from assms(5) have e: "x + ?X * (y + ?Y * z) = x' + ?X * (y' + ?Y * z')"
    by (simp add: VoxelToIndex_def)
  have "(x + ?X * (y + ?Y * z)) mod ?X = x" using assms(1) by simp
  moreover have "(x' + ?X * (y' + ?Y * z')) mod ?X = x'" using assms(3) by simp
  ultimately have x: "x = x'" using e by metis
  have "(x + ?X * (y + ?Y * z)) div ?X = y + ?Y * z" using assms(1) by simp
  moreover have "(x' + ?X * (y' + ?Y * z')) div ?X = y' + ?Y * z'" using assms(3) by simp
  ultimately have e2: "y + ?Y * z = y' + ?Y * z'" using e by metis
  have "(y + ?Y * z) mod ?Y = y" using assms(2) by simp
  moreover have "(y' + ?Y * z') mod ?Y = y'" using assms(4) by simp
  ultimately have y: "y = y'" using e2 by metis
  have "(y + ?Y * z) div ?Y = z" using assms(2) by simp
  moreover have "(y' + ?Y * z') div ?Y = z'" using assms(4) by simp
  ultimately have "z = z'" using e2 by metis
  with x y show ?thesis by simp
qed

lemma VoxelToIndex_less:
  assumes "x < GetX im" "y < GetY im" "z < GetZ im"
  shows "VoxelToIndex im x y z < NumberOfVoxels im"
proof -
  let ?X = "GetX im" and ?Y = "GetY im" and ?Z = "GetZ im"
  have "y + ?Y * z < ?Y * ?Z"
  proof -
    have "y + ?Y * z < ?Y + ?Y * z" using assms(2) by simp
    also have "\<dots> = ?Y * Suc z" by simp
    also have "\<dots> \<le> ?Y * ?Z" using assms(3) by (intro mult_le_mono2) simp
    finally show ?thesis .
  qed
  then have "Suc (y + ?Y * z) \<le> ?Y * ?Z" by simp
  then have "?X * Suc (y + ?Y * z) \<le> ?X * (?Y * ?Z)" by (rule mult_le_mono2)
  moreover have "x + ?X * (y + ?Y * z) < ?X * Suc (y + ?Y * z)" using assms(1) by simp
  ultimately show ?thesis by (simp add: VoxelToIndex_def NumberOfVoxels_def mult.assoc)
qed

lemma accumulate_grid [simp]:
  "GetX (accumulate p im) = GetX im" "GetY (accumulate p im) = GetY im"
  "GetZ (accumulate p im) = GetZ im"
  by (simp_all add: accumulate_def Put_def)

lemma accumulate_allocated: "allocated im \<Longrightarrow> allocated (accumulate p im)"
  by (simp add: allocated_def accumulate_def Put_def NumberOfVoxels_def)

lemma accumulate_inside: "inside (accumulate q im) p = inside im p"
  by (simp add: inside_def)

lemma Get_accumulate:
  assumes "allocated im" "inside im p" "x < GetX im" "y < GetY im" "z < GetZ im"
  shows "Get (accumulate p im) x y z =
         Get im x y z + (if references x y z p then p_value p else 0)"
proof -
  let ?px = "nat (p_x p)" and ?py = "nat (p_y p)" and ?pz = "nat (p_z p)"
  from assms(2) have in_grid: "?px < GetX im" "?py < GetY im" "?pz < GetZ im"
    by (auto simp: inside_def)
  from assms(2) have ref: "references x y z p \<longleftrightarrow> (x = ?px \<and> y = ?py \<and> z = ?pz)"
    by (auto simp: inside_def references_def)
  have len: "VoxelToIndex im ?px ?py ?pz < length (Data im)"
    using VoxelToIndex_less [OF in_grid] assms(1) by (simp add: allocated_def)
  show ?thesis
  proof (cases "references x y z p")
    case True
    with ref len show ?thesis
      by (simp add: accumulate_def Put_def Get_def VoxelToIndex_def)
  next
    case False
    with ref have "VoxelToIndex im ?px ?py ?pz \<noteq> VoxelToIndex im x y z"
      using VoxelToIndex_inject [OF in_grid(1,2) assms(3,4)] by blast
    with False show ?thesis
      by (simp add: accumulate_def Put_def Get_def VoxelToIndex_def)
  qed
qed

lemma fold_accumulate_grid [simp]:
  "GetX (fold accumulate ps im) = GetX im" "GetY (fold accumulate ps im) = GetY im"
  "GetZ (fold accumulate ps im) = GetZ im"
  by (induction ps arbitrary: im) simp_all

lemma fold_accumulate_allocated:
  "allocated im \<Longrightarrow> allocated (fold accumulate ps im)"
  by (induction ps arbitrary: im) (simp_all add: accumulate_allocated)

lemma Get_fold_accumulate:
  assumes "allocated im" "list_all (inside im) ps" "x < GetX im" "y < GetY im" "z < GetZ im"
  shows "Get (fold accumulate ps im) x y z =
         Get im x y z + sum_list (map p_value (filter (references x y z) ps))"
  using assms
proof (induction ps arbitrary: im)
  case Nil
  then show ?case by simp
next
  case (Cons p ps)
  from Cons.prems have p: "inside im p" and ps: "list_all (inside (accumulate p im)) ps"
    by (simp_all add: accumulate_inside [abs_def])
  have "Get (fold accumulate ps (accumulate p im)) x y z =
        Get (accumulate p im) x y z + sum_list (map p_value (filter (references x y z) ps))"
    using Cons.prems ps by (intro Cons.IH) (simp_all add: accumulate_allocated)
  with Get_accumulate [OF Cons.prems(1) p Cons.prems(3,4,5)] show ?case by simp
qed

lemma fold_concat_map:
  "fold f (concat (map g xs)) a = fold (\<lambda>x. fold f (g x)) xs a"
  by (induction xs arbitrary: a) simp_all

lemma product_rows:
  "map (\<lambda>(i, j). c ! i ! j) (List.product [0..<length c] [0..<n]) =
   concat (map (\<lambda>row. map (\<lambda>j. row ! j) [0..<n]) c)"
proof -
  have "map (\<lambda>(i, j). c ! i ! j) (List.product [0..<length c] [0..<n]) =
        concat (map (\<lambda>i. map (\<lambda>j. c ! i ! j) [0..<n]) [0..<length c])"
    by (simp add: List.product_concat_map map_concat comp_def)
  also have "\<dots> = concat (map (\<lambda>row. map (\<lambda>j. row ! j) [0..<n]) (map (\<lambda>i. c ! i) [0..<length c]))"
    by (simp add: comp_def)
  also have "map (\<lambda>i. c ! i) [0..<length c] = c" by (rule map_nth)
  finally show ?thesis .
qed

lemma shaped_entries:
  assumes "shaped slice coeffs"
  shows "map (\<lambda>(i, j). coeffs ! i ! j) (List.product [0..<GetX slice] [0..<GetY slice]) =
         concat coeffs"
proof -
  from assms have len: "length coeffs = GetX slice"
    and rows: "\<forall>row\<in>set coeffs. length row = GetY slice"
    by (simp_all add: shaped_def list_all_iff)
  have "map (\<lambda>row. map (\<lambda>j. row ! j) [0..<GetY slice]) coeffs = coeffs"
  proof (rule map_idI)
    fix row assume "row \<in> set coeffs"
    with rows have "length row = GetY slice" by simp
    then show "map (\<lambda>j. row ! j) [0..<GetY slice] = row" using map_nth [of row] by simp
  qed
  with product_rows [of coeffs "GetY slice"] len show ?thesis by simp
qed

lemma accumulate_slice_entries:
  assumes "shaped slice coeffs"
  shows "accumulate_slice slice coeffs vw = fold accumulate (concat (concat coeffs)) vw"
proof -
  have "accumulate_slice slice coeffs vw =
        fold (\<lambda>ij. fold accumulate ((\<lambda>(i, j). coeffs ! i ! j) ij))
          (List.product [0..<GetX slice] [0..<GetY slice]) vw"
    by (simp add: accumulate_slice_def split_def)
  also have "\<dots> = fold accumulate
        (concat (map (\<lambda>(i, j). coeffs ! i ! j) (List.product [0..<GetX slice] [0..<GetY slice]))) vw"
    by (rule fold_concat_map [symmetric])
  finally show ?thesis by (simp only: shaped_entries [OF assms])
qed

lemma fold_slices_entries:
  assumes "\<forall>k\<in>set ks. \<not> excluded k fes \<longrightarrow> shaped (sl ! k) (coeffs ! k)"
  shows "fold (\<lambda>inputIndex vw. if excluded inputIndex fes then vw
                 else accumulate_slice (sl ! inputIndex) (coeffs ! inputIndex) vw) ks vw0 =
         fold accumulate
           (concat (map (\<lambda>inputIndex. if excluded inputIndex fes then []
                                        else concat (concat (coeffs ! inputIndex))) ks)) vw0"
  using assms
proof (induction ks arbitrary: vw0)
  case Nil
  then show ?case by simp
next
  case (Cons k ks)
  then show ?case by (simp add: accumulate_slice_entries)
qed

lemma inside_Initialize:
  "inside (Initialize (GetX im) (GetY im) (GetZ im)) p = inside im p"
  by (simp add: inside_def Initialize_def)

lemma Get_Initialize:
  assumes "x < nx" "y < ny" "z < nz"
  shows "Get (Initialize nx ny nz) x y z = 0"
proof -
  have "VoxelToIndex (Initialize nx ny nz) x y z < NumberOfVoxels (Initialize nx ny nz)"
    using assms by (intro VoxelToIndex_less) (simp_all add: Initialize_def)
  then show ?thesis
    by (simp add: Get_def Initialize_def NumberOfVoxels_def VoxelToIndex_def)
qed

lemma allocated_Initialize: "allocated (Initialize nx ny nz)"
  by (simp add: allocated_def Initialize_def NumberOfVoxels_def)

lemma volume_weights_CoeffInit:
  "volume_weights (CoeffInit coeffs insides r) =
     fold (\<lambda>inputIndex vw. if excluded inputIndex (force_excluded r) then vw
             else accumulate_slice (slices r ! inputIndex) (coeffs ! inputIndex) vw)
       [0..<length (slices r)]
       (Initialize (GetX (reconstructed r)) (GetY (reconstructed r)) (GetZ (reconstructed r)))"
  by (simp add: CoeffInit_def Let_def)

lemma CoeffInit_frame:
  "volcoeffs (CoeffInit coeffs insides r) = coeffs"
  "slices (CoeffInit coeffs insides r) = slices r"
  "force_excluded (CoeffInit coeffs insides r) = force_excluded r"
  by (simp_all add: CoeffInit_def Let_def)

lemma contributing_entries_CoeffInit:
  "contributing_entries (CoeffInit coeffs insides r) =
     concat (map (\<lambda>inputIndex. if excluded inputIndex (force_excluded r) then []
                                 else concat (concat (coeffs ! inputIndex)))
               [0..<length (slices r)])"
  by (simp add: contributing_entries_def CoeffInit_frame cong: if_cong)

text \<open>
  Claim C1: after \<^verbatim>\<open>CoeffInit\<close>, at every voxel of the volume the weight map
  \<^verbatim>\<open>_volume_weights\<close> is the sum of \<^verbatim>\<open>p.value\<close> over all entries of the coefficient lists
  \<^verbatim>\<open>_volcoeffs\<close> of the slices that are not force-excluded which reference that voxel.
  The matrix of each such slice has the shape \<^verbatim>\<open>Parallel::CoeffInit\<close> gives it and holds
  voxels of the volume only.
\<close>

theorem CoeffInit_volume_weights:
  assumes shape: "\<forall>k<length (slices r). \<not> excluded k (force_excluded r) \<longrightarrow>
                    shaped (slices r ! k) (coeffs ! k)"
    and grid: "\<forall>k<length (slices r). \<not> excluded k (force_excluded r) \<longrightarrow>
                    list_all (inside (reconstructed r)) (concat (concat (coeffs ! k)))"
    and voxel: "x < GetX (reconstructed r)" "y < GetY (reconstructed r)"
               "z < GetZ (reconstructed r)"
  shows "Get (volume_weights (CoeffInit coeffs insides r)) x y z =
         sum_list (map p_value (filter (references x y z)
           (contributing_entries (CoeffInit coeffs insides r))))"
proof -
  let ?vw0 = "Initialize (GetX (reconstructed r)) (GetY (reconstructed r))
                (GetZ (reconstructed r))"
  let ?entries = "concat (map (\<lambda>inputIndex. if excluded inputIndex (force_excluded r) then []
                                 else concat (concat (coeffs ! inputIndex)))
               [0..<length (slices r)])"
  have vw: "volume_weights (CoeffInit coeffs insides r) = fold accumulate ?entries ?vw0"
    unfolding volume_weights_CoeffInit using shape by (intro fold_slices_entries) simp
  have "list_all (inside (reconstructed r)) ?entries"
    using grid by (auto simp: list_all_iff)
  then have ins: "list_all (inside ?vw0) ?entries"
    by (simp add: inside_Initialize [abs_def])
  have "Get (fold accumulate ?entries ?vw0) x y z =
        Get ?vw0 x y z + sum_list (map p_value (filter (references x y z) ?entries))"
    using allocated_Initialize ins voxel
    by (intro Get_fold_accumulate) (simp_all add: Initialize_def)
  with vw voxel show ?thesis
    by (simp add: Get_Initialize contributing_entries_CoeffInit)
qed

theorem CoeffInit_volume_weights_witness:
  "Get (volume_weights (CoeffInit example_coeffs [True, True, True] example_volume)) 1 0 0 =
     1/2 + 1 + 1/4"
proof -
  have "Get (volume_weights (CoeffInit example_coeffs [True, True, True] example_volume)) 1 0 0 =
         sum_list (map p_value (filter (references 1 0 0)
           (contributing_entries (CoeffInit example_coeffs [True, True, True] example_volume))))"
    by (rule CoeffInit_volume_weights)
       (simp_all add: example_volume_def example_coeffs_def Reconstruction_new_def
          Initialize_def shaped_def inside_def All_less_Suc2 numeral_3_eq_3)
  also have "\<dots> = 1/2 + 1 + 1/4" by code_simp
  finally show ?thesis .
qed

section \<open>Loops over arrays\<close>

lemma for_each_index_Suc:
  "for_each_index (Suc n) body xs =
     (for_each_index n body xs)[n := body n (for_each_index n body xs ! n)]"
  by (simp add: for_each_index_def)

lemma length_for_each_index [simp]: "length (for_each_index n body xs) = length xs"
  by (induction n) (simp_all add: for_each_index_Suc, simp add: for_each_index_def)

lemma nth_for_each_index:
  "for_each_index n body xs ! i =
     (if i < n \<and> i < length xs then body i (xs ! i) else xs ! i)"
proof (induction n)
  case 0
  then show ?case by (simp add: for_each_index_def)
next
  case (Suc n)
  show ?case
  proof (cases "i = n")
    case True
    with Suc show ?thesis
      by (cases "n < length xs") (simp_all add: for_each_index_Suc list_update_beyond)
  next
    case False
    with Suc show ?thesis by (auto simp: for_each_index_Suc)
  qed
qed

lemma length_force_exclude [simp]: "length (force_exclude fes n v xs) = length xs"
  unfolding force_exclude_def by (induction fes arbitrary: xs) simp_all

lemma length_EStep_potentials [simp]:
  "length (EStep_potentials slice_potential r) = length slice_potential"
proof -
  have "length (fold (\<lambda>i acc. acc[i := - 1]) ks xs) = length xs" for ks and xs :: "real list"
    by (induction ks arbitrary: xs) simp_all
  then show ?thesis by (simp add: EStep_potentials_def Let_def)
qed

lemma EStep_potentials_scale:
  assumes "k < length slice_potential" "scale r ! k < 0.2 \<or> scale r ! k > 5"
  shows "EStep_potentials slice_potential r ! k = - 1"
proof -
  have len: "length (fold (\<lambda>i acc. acc[i := - 1]) ks xs) = length xs" for ks and xs :: "real list"
    by (induction ks arbitrary: xs) simp_all
  show ?thesis using assms
    by (simp add: EStep_potentials_def Let_def nth_for_each_index len)
qed

lemma slice_weight_EStep:
  "\<exists>den means means2 sigmas sigmas2.
     slice_weight (EStep G slice_potential r) =
       for_each_index (length (slices r))
         (\<lambda>inputIndex w. EStep_weight G den means means2 sigmas sigmas2 (mix_s r)
                            (EStep_potentials slice_potential r ! inputIndex) w)
         (slice_weight r)"
  by (simp add: EStep_def Let_def split_def) blast

section \<open>Slices with an unrealistic scale\<close>

text \<open>
  Claim C7: for every slice whose scale lies outside \<open>[0.2, 5]\<close>, \<^verbatim>\<open>EStep\<close> sets the slice
  potential to \<open>-1\<close> and the slice weight to 0, whatever \<^verbatim>\<open>Parallel::EStep\<close> computed
  for the slice and whatever the Gaussian \<^verbatim>\<open>G\<close> is.
\<close>

theorem EStep_unrealistic_scale:
  assumes "k < length (slices r)"
    and "length slice_potential = length (slices r)"
    and "length (scale r) = length (slices r)"
    and "length (slice_weight r) = length (slices r)"
    and "scale r ! k < 0.2 \<or> scale r ! k > 5"
  shows "EStep_potentials slice_potential r ! k = - 1
         \<and> slice_weight (EStep G slice_potential r) ! k = 0"
proof -
  have p: "EStep_potentials slice_potential r ! k = - 1"
    using assms by (intro EStep_potentials_scale) simp_all
  from slice_weight_EStep [of G slice_potential r] obtain den means means2 sigmas sigmas2
    where "slice_weight (EStep G slice_potential r) =
       for_each_index (length (slices r))
         (\<lambda>inputIndex w. EStep_weight G den means means2 sigmas sigmas2 (mix_s r)
                            (EStep_potentials slice_potential r ! inputIndex) w)
         (slice_weight r)" by blast
  then have "slice_weight (EStep G slice_potential r) ! k =
        EStep_weight G den means means2 sigmas sigmas2 (mix_s r) (- 1) (slice_weight r ! k)"
    using assms p by (simp add: nth_for_each_index)
  then show ?thesis using p by (simp add: EStep_weight_def)
qed

theorem EStep_unrealistic_scale_witness:
  "slice_weight (EStep example_G [1/2, 1/4, 1/3] example_scales) ! 1 = 0
   \<and> slice_weight (EStep example_G [1/2, 1/4, 1/3] example_scales) ! 2 = 0"
  using EStep_unrealistic_scale [of 1 example_scales "[1/2, 1/4, 1/3]" example_G]
     EStep_unrealistic_scale [of 2 example_scales "[1/2, 1/4, 1/3]" example_G]
  by (simp add: example_scales_def Reconstruction_new_def)

section \<open>The parameters EStep and MStep estimate\<close>

lemma EStep_fields:
  "slice_weight (EStep G slice_potential r) =
     for_each_index (length (slices r))
       (\<lambda>inputIndex w.
           EStep_weight G
             (fst (snd (EStep_variances (length (slices r)) (EStep_potentials slice_potential r)
                (slice_weight r) (mean_s (EStep G slice_potential r))
                (mean_s2 (EStep G slice_potential r)))))
             (mean_s (EStep G slice_potential r)) (mean_s2 (EStep G slice_potential r))
             (sigma_s (EStep G slice_potential r)) (sigma_s2 (EStep G slice_potential r))
             (mix_s r) (EStep_potentials slice_potential r ! inputIndex) w)
       (slice_weight r)"
  by (simp add: EStep_def Let_def split_def)

lemma fallback_bound: "min c b \<le> (if P then max a b else (c::real))"
  by (cases P) (auto simp: min_le_iff_disj le_max_iff_disj)

lemma floor_bound: "b \<le> (if P then max a b else max c (b::real))"
  by (cases P) (auto simp: le_max_iff_disj)

lemma EStep_sigma_s_bound: "min 0.025 (stp * stp / 6.28) \<le> EStep_sigma_s vsum vden stp"
  unfolding EStep_sigma_s_def by (rule fallback_bound)

lemma EStep_sigma_s2_bound: "stp * stp / 6.28 \<le> EStep_sigma_s2 vsum2 vden2 means means2 stp"
  unfolding EStep_sigma_s2_def by (rule floor_bound)

lemma sigma_s_EStep_form:
  "\<exists>a b. sigma_s (EStep G slice_potential r) = EStep_sigma_s a b (step r)"
  by (simp add: EStep_def Let_def split_def) blast

lemma sigma_s2_EStep_form:
  "\<exists>a b c d. sigma_s2 (EStep G slice_potential r) = EStep_sigma_s2 a b c d (step r)"
  by (simp add: EStep_def Let_def split_def) blast

lemma sigma_s_EStep:
  "min 0.025 (step r * step r / 6.28) \<le> sigma_s (EStep G slice_potential r)"
proof -
  from sigma_s_EStep_form obtain a b
    where "sigma_s (EStep G slice_potential r) = EStep_sigma_s a b (step r)" by blast
  then show ?thesis by (simp only: EStep_sigma_s_bound)
qed

lemma sigma_s2_EStep:
  "step r * step r / 6.28 \<le> sigma_s2 (EStep G slice_potential r)"
proof -
  from sigma_s2_EStep_form obtain a b c d
    where "sigma_s2 (EStep G slice_potential r) = EStep_sigma_s2 a b c d (step r)" by blast
  then show ?thesis by (simp only: EStep_sigma_s2_bound)
qed

lemma fold_mix_no_valid:
  assumes "\<forall>k\<in>set ks. p ! k < (0::real)"
  shows "fold (\<lambda>inputIndex (sum, num).
             if p ! inputIndex \<ge> 0
             then (sum + (w::real list) ! inputIndex, Suc num) else (sum, num)) ks acc = acc"
  using assms by (induction ks arbitrary: acc) (auto simp: split_def)

lemma mix_s_EStep_no_valid:
  assumes "\<forall>k<length (slices r). EStep_potentials slice_potential r ! k < 0"
  shows "mix_s (EStep G slice_potential r) = 0.9"
proof -
  have "EStep_mix (length (slices r)) (EStep_potentials slice_potential r) w = (0, 0)" for w
    unfolding EStep_mix_def using assms by (intro fold_mix_no_valid) simp
  then show ?thesis by (simp add: EStep_def Let_def split_def)
qed

lemma fold_variances_den:
  assumes "\<forall>k\<in>set ks. 0 \<le> p ! k \<longrightarrow> w ! k = (0::real)"
  shows "fst (snd (fold (\<lambda>inputIndex (sum, den, sum2, den2).
             if p ! inputIndex \<ge> (0::real) then
               (sum + (p ! inputIndex - a) * (p ! inputIndex - a) * w ! inputIndex,
                den + w ! inputIndex,
                sum2 + (p ! inputIndex - b) * (p ! inputIndex - b) * (1 - w ! inputIndex),
                den2 + (1 - w ! inputIndex))
             else (sum, den, sum2, den2)) ks acc)) = fst (snd acc)"
  using assms by (induction ks arbitrary: acc) (auto simp: split_def)

lemma EStep_variances_den_zero:
  assumes "\<forall>k<n. 0 \<le> p ! k \<longrightarrow> w ! k = 0"
  shows "fst (snd (EStep_variances n p w a b)) = 0"
proof -
  have "fst (snd (EStep_variances n p w a b)) = fst (snd (0::real, 0::real, 0::real, 0::real))"
    unfolding EStep_variances_def using assms by (intro fold_variances_den) simp
  then show ?thesis by simp
qed

lemma EStep_weight_fallback:
  assumes "den \<le> 0 \<or> means2 \<le> means" "potential \<noteq> - 1"
  shows "EStep_weight G den means means2 sigmas sigmas2 mixs potential w = 1"
  using assms by (auto simp: EStep_weight_def)

lemma EStep_weight_range:
  assumes "0 \<le> G (potential - means) sigmas" "0 \<le> G (potential - means2) sigmas2"
    and "0 \<le> mixs" "mixs \<le> 1"
  shows "0 \<le> EStep_weight G den means means2 sigmas sigmas2 mixs potential w
         \<and> EStep_weight G den means means2 sigmas sigmas2 mixs potential w \<le> 1"
proof -
  let ?gs1 = "if potential < means2 then G (potential - means) sigmas else 0"
  let ?gs2 = "if potential > means then G (potential - means2) sigmas2 else 0"
  let ?l = "?gs1 * mixs + ?gs2 * (1 - mixs)"
  have a: "0 \<le> ?gs1 * mixs" using assms by simp
  have b: "0 \<le> ?gs2 * (1 - mixs)" using assms by simp
  have frac: "0 \<le> ?gs1 * mixs / ?l \<and> ?gs1 * mixs / ?l \<le> 1" if "0 < ?l"
  proof
    show "0 \<le> ?gs1 * mixs / ?l" using a that by (intro divide_nonneg_pos)
    have "?gs1 * mixs \<le> ?l" using b by linarith
    then show "?gs1 * mixs / ?l \<le> 1" using that by (simp add: divide_le_eq del: mult_eq_0_iff)
  qed
  show ?thesis
  proof (cases "potential = - 1 \<or> den \<le> 0 \<or> means2 \<le> means")
    case True
    then show ?thesis by (auto simp: EStep_weight_def)
  next
    case False
    show ?thesis
    proof (cases "0 < ?l")
      case True
      with False frac show ?thesis by (simp add: EStep_weight_def Let_def)
    next
      case no: False
      with False show ?thesis by (auto simp: EStep_weight_def Let_def)
    qed
  qed
qed

lemma MStep_exit: "(MStep iter sigma0 mix0 num0 min0 max0 r = Inl (Exit 1)) = (mix0 \<le> 0)"
  by (simp add: MStep_def Let_def)

lemma MStep_continues:
  assumes "0 < mix0"
  shows "\<exists>r'. MStep iter sigma0 mix0 num0 min0 max0 r = Inr r'
              \<and> step r * step r / 6.28 \<le> sigma r'"
  using assms by (simp add: MStep_def Let_def)

section \<open>Force-excluded slices in the EM steps\<close>

lemma nth_force_exclude:
  assumes "i < length xs"
  shows "force_exclude fes n v xs ! i =
         (if \<exists>fe\<in>set fes. 0 < fe \<and> fe < int n \<and> nat fe = i then v else xs ! i)"
  using assms
proof (induction fes arbitrary: xs)
  case Nil
  then show ?case by (simp add: force_exclude_def)
next
  case (Cons fe fes)
  show ?case
  proof (cases "fe > 0 \<and> fe < int n")
    case True
    then have "force_exclude (fe # fes) n v xs = force_exclude fes n v (xs[nat fe := v])"
      by (simp add: force_exclude_def)
    moreover have "force_exclude fes n v (xs[nat fe := v]) ! i =
        (if \<exists>fe\<in>set fes. 0 < fe \<and> fe < int n \<and> nat fe = i then v else xs[nat fe := v] ! i)"
      using Cons.prems by (intro Cons.IH) simp
    ultimately show ?thesis using True Cons.prems by (auto simp: nth_list_update)
  next
    case False
    then have "force_exclude (fe # fes) n v xs = force_exclude fes n v xs"
      by (auto simp: force_exclude_def)
    moreover have "force_exclude fes n v xs ! i =
        (if \<exists>fe\<in>set fes. 0 < fe \<and> fe < int n \<and> nat fe = i then v else xs ! i)"
      using Cons.prems by (intro Cons.IH)
    moreover have "(\<exists>fe'\<in>set (fe # fes). 0 < fe' \<and> fe' < int n \<and> nat fe' = i) =
        (\<exists>fe'\<in>set fes. 0 < fe' \<and> fe' < int n \<and> nat fe' = i)"
      using False by auto
    ultimately show ?thesis by (simp only:)
  qed
qed

lemma small_slices_keep:
  assumes "xs ! i = (- 1 :: real)"
  shows "fold (\<lambda>k acc. acc[k := - 1]) ks xs ! i = - 1"
  using assms
proof (induction ks arbitrary: xs)
  case Nil
  then show ?case by simp
next
  case (Cons k ks)
  have "xs[k := - 1] ! i = - 1"
    using Cons.prems by (cases "k < length xs") (simp_all add: nth_list_update list_update_beyond)
  then show ?case by (simp add: Cons.IH)
qed

text \<open>For an index that is positive the force exclusion does what the comments say.\<close>

lemma force_excluded_positive_index:
  assumes "fe \<in> set (force_excluded r)" "0 < fe" "fe < int (length (slices r))"
    and "length (slice_weight r) = length (slices r)"
    and "length slice_potential = length (slices r)"
  shows "slice_weight (InitializeRobustStatistics r) ! nat fe = 0"
    and "EStep_potentials slice_potential r ! nat fe = - 1"
    and "slice_weight (EStep G slice_potential r) ! nat fe = 0"
proof -
  let ?n = "length (slices r)"
  from assms have i: "nat fe < ?n" by simp
  have ex: "\<exists>fe'\<in>set (force_excluded r). 0 < fe' \<and> fe' < int ?n \<and> nat fe' = nat fe"
    using assms(1,2,3) by blast
  show "slice_weight (InitializeRobustStatistics r) ! nat fe = 0"
    using i ex assms(4) by (simp add: InitializeRobustStatistics_def Let_def nth_force_exclude)
  have "force_exclude (force_excluded r) ?n (- 1) slice_potential ! nat fe = - 1"
    using i ex assms(5) by (simp add: nth_force_exclude)
  then have "fold (\<lambda>k acc. acc[k := - 1]) (small_slices r)
               (force_exclude (force_excluded r) ?n (- 1) slice_potential) ! nat fe = - 1"
    by (rule small_slices_keep)
  then show p: "EStep_potentials slice_potential r ! nat fe = - 1"
    by (simp add: EStep_potentials_def Let_def nth_for_each_index)
  show "slice_weight (EStep G slice_potential r) ! nat fe = 0"
    using i assms(4) p
    by (subst EStep_fields) (simp add: nth_for_each_index EStep_weight_def)
qed


section \<open>Degenerate statistics\<close>

lemma sigma_s_EStep_exact:
  "sigma_s (EStep G slice_potential r) =
     EStep_sigma_s
       (fst (EStep_variances (length (slices r)) (EStep_potentials slice_potential r)
               (slice_weight r) (mean_s (EStep G slice_potential r))
               (mean_s2 (EStep G slice_potential r))))
       (fst (snd (EStep_variances (length (slices r)) (EStep_potentials slice_potential r)
               (slice_weight r) (mean_s (EStep G slice_potential r))
               (mean_s2 (EStep G slice_potential r)))))
       (step r)"
  by (simp add: EStep_def Let_def split_def)

lemma EStep_sigma_s_fallback:
  "vsum \<le> 0 \<or> vden \<le> 0 \<Longrightarrow> EStep_sigma_s vsum vden stp = 0.025"
  by (auto simp: EStep_sigma_s_def)

lemma fallback_cases: "(if P then max a b else c) = c \<or> b \<le> (if P then max a b else (c::real))"
  by (cases P) (auto simp: le_max_iff_disj)

lemma EStep_sigma_s_cases:
  "EStep_sigma_s vsum vden stp = 0.025 \<or> stp * stp / 6.28 \<le> EStep_sigma_s vsum vden stp"
  unfolding EStep_sigma_s_def by (rule fallback_cases)

text \<open>
  Claim C6, as far as the source goes.  \<^verbatim>\<open>EStep\<close> has no path that ends the run, and its
  degenerate cases are replaced by the fallback values.  For a positive \<^verbatim>\<open>_step\<close>,
  \<^verbatim>\<open>_sigma_s\<close> and \<^verbatim>\<open>_sigma_s2\<close> are positive: \<^verbatim>\<open>_sigma_s\<close> is 0.025 or at least the floor
  \<open>step * step / 6.28\<close>, and \<^verbatim>\<open>_sigma_s2\<close> is at least the floor.  \<^verbatim>\<open>_sigma_s\<close> is the
  fallback 0.025 whenever the weighted sum of squares or the sum of the weights of the
  second reduction is not positive, as it is when every slice with a valid potential has
  weight 0 (an empty inlier class).  \<^verbatim>\<open>_mix_s\<close> is 0.9 when no slice has a valid potential,
  every slice with a potential other than \<open>-1\<close> gets weight 1 when the inlier class is empty
  or the two means are not ordered, and every new slice weight lies in \<open>[0, 1]\<close>.  \<^verbatim>\<open>MStep\<close>
  ends the run with \<^verbatim>\<open>exit(1)\<close> exactly when the sum of the voxel weights \<^verbatim>\<open>mix\<close> is not
  positive; otherwise it continues with \<^verbatim>\<open>_sigma\<close> at the floor at least.
\<close>

theorem EM_degeneracies:
  assumes len: "length slice_potential = length (slices r)"
               "length (slice_weight r) = length (slices r)"
    and stp: "0 < step r"
    and G: "\<And>x s. 0 < s \<Longrightarrow> 0 \<le> G x s"
    and mixs: "0 \<le> mix_s r" "mix_s r \<le> 1"
  shows "0 < sigma_s (EStep G slice_potential r)
       \<and> 0 < sigma_s2 (EStep G slice_potential r)
       \<and> (sigma_s (EStep G slice_potential r) = 0.025
            \<or> step r * step r / 6.28 \<le> sigma_s (EStep G slice_potential r))
       \<and> step r * step r / 6.28 \<le> sigma_s2 (EStep G slice_potential r)
       \<and> (fst (EStep_variances (length (slices r)) (EStep_potentials slice_potential r)
                  (slice_weight r) (mean_s (EStep G slice_potential r))
                  (mean_s2 (EStep G slice_potential r))) \<le> 0
            \<or> fst (snd (EStep_variances (length (slices r)) (EStep_potentials slice_potential r)
                  (slice_weight r) (mean_s (EStep G slice_potential r))
                  (mean_s2 (EStep G slice_potential r)))) \<le> 0
            \<longrightarrow> sigma_s (EStep G slice_potential r) = 0.025)
       \<and> ((\<forall>k<length (slices r). 0 \<le> EStep_potentials slice_potential r ! k
               \<longrightarrow> slice_weight r ! k = 0)
            \<longrightarrow> sigma_s (EStep G slice_potential r) = 0.025)
       \<and> ((\<forall>k<length (slices r). EStep_potentials slice_potential r ! k < 0)
            \<longrightarrow> mix_s (EStep G slice_potential r) = 0.9)
       \<and> ((\<forall>k<length (slices r). 0 \<le> EStep_potentials slice_potential r ! k
               \<longrightarrow> slice_weight r ! k = 0)
            \<or> mean_s2 (EStep G slice_potential r) \<le> mean_s (EStep G slice_potential r)
            \<longrightarrow> (\<forall>k<length (slices r). EStep_potentials slice_potential r ! k \<noteq> - 1
                   \<longrightarrow> slice_weight (EStep G slice_potential r) ! k = 1))
       \<and> (\<forall>k<length (slices r). 0 \<le> slice_weight (EStep G slice_potential r) ! k
                                 \<and> slice_weight (EStep G slice_potential r) ! k \<le> 1)
       \<and> (MStep iter sigma0 mix0 num0 min0 max0 r = Inl (Exit 1)) = (mix0 \<le> 0)
       \<and> (0 < mix0 \<longrightarrow> (\<exists>r'. MStep iter sigma0 mix0 num0 min0 max0 r = Inr r'
                              \<and> step r * step r / 6.28 \<le> sigma r'))"
proof -
  let ?r' = "EStep G slice_potential r"
  let ?p = "EStep_potentials slice_potential r"
  let ?n = "length (slices r)"
  let ?V = "EStep_variances ?n ?p (slice_weight r) (mean_s ?r') (mean_s2 ?r')"
  let ?den = "fst (snd ?V)"
  have floor_pos: "0 < step r * step r / 6.28" using stp by simp
  then have "0 < min 0.025 (step r * step r / 6.28)" by simp
  with sigma_s_EStep [of r G slice_potential] have s1: "0 < sigma_s ?r'" by linarith
  from floor_pos sigma_s2_EStep [of r G slice_potential] have s2: "0 < sigma_s2 ?r'"
    by linarith
  have form: "sigma_s ?r' = 0.025 \<or> step r * step r / 6.28 \<le> sigma_s ?r'"
    unfolding sigma_s_EStep_exact [of G slice_potential r] by (rule EStep_sigma_s_cases)
  have fb: "sigma_s ?r' = 0.025" if "fst ?V \<le> 0 \<or> ?den \<le> 0"
    unfolding sigma_s_EStep_exact [of G slice_potential r] using that
    by (rule EStep_sigma_s_fallback)
  have den0: "?den = 0" if "\<forall>k<?n. 0 \<le> ?p ! k \<longrightarrow> slice_weight r ! k = 0"
    using that by (rule EStep_variances_den_zero)
  have fb2: "sigma_s ?r' = 0.025" if "\<forall>k<?n. 0 \<le> ?p ! k \<longrightarrow> slice_weight r ! k = 0"
    using den0 [OF that] by (intro fb) simp
  have w: "slice_weight ?r' ! k =
        EStep_weight G ?den (mean_s ?r') (mean_s2 ?r') (sigma_s ?r') (sigma_s2 ?r') (mix_s r)
          (?p ! k) (slice_weight r ! k)" if "k < ?n" for k
    using that len by (subst EStep_fields) (simp add: nth_for_each_index)
  have fallback: "slice_weight ?r' ! k = 1"
    if "(\<forall>k<?n. 0 \<le> ?p ! k \<longrightarrow> slice_weight r ! k = 0) \<or> mean_s2 ?r' \<le> mean_s ?r'"
      and "k < ?n" "?p ! k \<noteq> - 1" for k
  proof -
    from that(1) have "?den \<le> 0 \<or> mean_s2 ?r' \<le> mean_s ?r'"
      using den0 by auto
    then show ?thesis unfolding w [OF that(2)] using that(3) by (rule EStep_weight_fallback)
  qed
  have range: "0 \<le> slice_weight ?r' ! k \<and> slice_weight ?r' ! k \<le> 1" if "k < ?n" for k
    unfolding w [OF that] using G [OF s1] G [OF s2] mixs by (intro EStep_weight_range)
  have c34: "(sigma_s ?r' = 0.025 \<or> step r * step r / 6.28 \<le> sigma_s ?r')
       \<and> step r * step r / 6.28 \<le> sigma_s2 ?r'"
    using form sigma_s2_EStep [of r G slice_potential] by (rule conjI)
  have c56: "(fst ?V \<le> 0 \<or> ?den \<le> 0 \<longrightarrow> sigma_s ?r' = 0.025)
       \<and> ((\<forall>k<?n. 0 \<le> ?p ! k \<longrightarrow> slice_weight r ! k = 0) \<longrightarrow> sigma_s ?r' = 0.025)"
    using fb fb2 by blast
  have rest: "((\<forall>k<?n. ?p ! k < 0) \<longrightarrow> mix_s ?r' = 0.9)
       \<and> ((\<forall>k<?n. 0 \<le> ?p ! k \<longrightarrow> slice_weight r ! k = 0) \<or> mean_s2 ?r' \<le> mean_s ?r'
            \<longrightarrow> (\<forall>k<?n. ?p ! k \<noteq> - 1 \<longrightarrow> slice_weight ?r' ! k = 1))
       \<and> (\<forall>k<?n. 0 \<le> slice_weight ?r' ! k \<and> slice_weight ?r' ! k \<le> 1)
       \<and> (MStep iter sigma0 mix0 num0 min0 max0 r = Inl (Exit 1)) = (mix0 \<le> 0)
       \<and> (0 < mix0 \<longrightarrow> (\<exists>r'. MStep iter sigma0 mix0 num0 min0 max0 r = Inr r'
                              \<and> step r * step r / 6.28 \<le> sigma r'))"
    using mix_s_EStep_no_valid [of r slice_potential G] fallback range
      MStep_exit [of iter sigma0 mix0 num0 min0 max0 r]
      MStep_continues [of mix0 iter sigma0 num0 min0 max0 r]
    by blast
  from s1 s2 c34 c56 rest show ?thesis by (intro conjI) (erule conjE | assumption)+
qed

lemma example_G_nonneg: "0 < s \<Longrightarrow> 0 \<le> example_G x s"
  by (simp add: example_G_def)

lemma example_two_slices_potentials:
  "EStep_potentials [1/2, - 1] example_two_slices = [1/2, - 1]"
  "EStep_potentials [- 1, - 1] example_two_slices = [- 1, - 1]"
  by (simp_all add: EStep_potentials_def example_two_slices_def Reconstruction_new_def
      force_exclude_def for_each_index_def Let_def)

theorem EM_degeneracies_witness:
  "slice_weight (EStep example_G [1/2, - 1] example_two_slices) ! 0 = 1
   \<and> sigma_s (EStep example_G [1/2, - 1] example_two_slices) = 0.025
   \<and> mix_s (EStep example_G [- 1, - 1] example_two_slices) = 0.9
   \<and> MStep 2 0 0 10 0 100 example_two_slices = Inl (Exit 1)
   \<and> (\<exists>r'. MStep 2 50 5 10 0 100 example_two_slices = Inr r' \<and> 0 < sigma r')"
proof -
  have h: "length (slices example_two_slices) = 2"
    "length (slice_weight example_two_slices) = length (slices example_two_slices)"
    "0 < step example_two_slices" "0 \<le> mix_s example_two_slices" "mix_s example_two_slices \<le> 1"
    "slice_weight example_two_slices = [0, 1]"
    by (simp_all add: example_two_slices_def Reconstruction_new_def)
  have l1: "length [1/2, - 1 :: real] = length (slices example_two_slices)"
    and l2: "length [- 1, - 1 :: real] = length (slices example_two_slices)"
    by (simp_all add: h(1))
  note inliers_empty =
    EM_degeneracies [where G = example_G and iter = 2 and ?sigma0.0 = 0 and ?mix0.0 = 0 and ?num0.0 = 10
      and ?min0.0 = 0 and ?max0.0 = 100, OF l1 h(2) h(3) example_G_nonneg h(4) h(5)]
  note no_valid =
    EM_degeneracies [where G = example_G and iter = 2 and ?sigma0.0 = 50 and ?mix0.0 = 5 and ?num0.0 = 10
      and ?min0.0 = 0 and ?max0.0 = 100, OF l2 h(2) h(3) example_G_nonneg h(4) h(5)]
  have e: "\<forall>k<length (slices example_two_slices).
             0 \<le> EStep_potentials [1/2, - 1] example_two_slices ! k
               \<longrightarrow> slice_weight example_two_slices ! k = 0"
    by (simp add: example_two_slices_potentials h(1,6) All_less_Suc2 numeral_2_eq_2)
  have a: "slice_weight (EStep example_G [1/2, - 1] example_two_slices) ! 0 = 1"
    using inliers_empty e by (simp add: example_two_slices_potentials h(1))
  have a2: "sigma_s (EStep example_G [1/2, - 1] example_two_slices) = 0.025"
    using inliers_empty e by blast
  have b: "MStep 2 0 0 10 0 100 example_two_slices = Inl (Exit 1)"
    using inliers_empty by simp
  have c: "mix_s (EStep example_G [- 1, - 1] example_two_slices) = 0.9"
    using no_valid by (simp add: example_two_slices_potentials h(1) All_less_Suc2 numeral_2_eq_2)
  from no_valid obtain r' where r': "MStep 2 50 5 10 0 100 example_two_slices = Inr r'"
    "step example_two_slices * step example_two_slices / 6.28 \<le> sigma r'" by auto
  have "0 < step example_two_slices * step example_two_slices / 6.28" using h(3) by simp
  with r' have d: "\<exists>r'. MStep 2 50 5 10 0 100 example_two_slices = Inr r' \<and> 0 < sigma r'"
    by (intro exI [of _ r']) simp
  from a a2 b c d show ?thesis by simp
qed

text \<open>
  Claim C6 as stated fails: with no voxel in the inlier class (\<^verbatim>\<open>mix\<close> is 0) \<^verbatim>\<open>MStep\<close> does
  not fall back to anything, it calls \<^verbatim>\<open>exit(1)\<close>.
\<close>

theorem MStep_exits_counterexample:
  "MStep 2 0 0 10 0 100 Reconstruction_new = Inl (Exit 1)"
  by (simp add: MStep_def)

section \<open>The NCC gate of StructuralExclusion\<close>

lemma fold_count:
  "snd (fold (\<lambda>j (s, n). if P j then (s + f j, Suc n) else (s, n)) ks (a :: real, k)) =
     k + length (filter P ks)"
  by (induction ks arbitrary: a k) simp_all

lemma ComputeNCC_few:
  assumes "length (filter (\<lambda>j. Data slice_1 ! j > threshold \<and> Data slice_2 ! j > threshold)
                     [0..<NumberOfVoxels slice_1]) < 5"
  shows "ComputeNCC slice_1 slice_2 threshold = - 1"
proof -
  let ?P = "\<lambda>j. Data slice_1 ! j > threshold \<and> Data slice_2 ! j > threshold"
  have "snd (fold (\<lambda>j (s, n). if ?P j then (s + Data slice_1 ! j, Suc n) else (s, n))
               [0..<NumberOfVoxels slice_1] (0, 0)) < 5"
    using assms by (simp add: fold_count)
  then show ?thesis by (simp add: ComputeNCC_def Let_def split_def)
qed

lemma reg_slice_weight_StructuralExclusion:
  assumes "inputIndex < length (slices r)" "length (reg_slice_weight r) = length (slices r)"
  shows "reg_slice_weight (StructuralExclusion prepared r) ! inputIndex =
         (if StructuralExclusion_ncc prepared inputIndex > global_NCC_threshold r then 1 else - 1)"
  using assms by (simp add: StructuralExclusion_def nth_for_each_index)

lemma Data_multiply_Initialize:
  "Data (multiply_by (Initialize nx ny nz) factor) = replicate (nx * ny * nz) 0"
proof (rule nth_equalityI)
  show "length (Data (multiply_by (Initialize nx ny nz) factor)) = length (replicate (nx * ny * nz) (0::real))"
    by (simp add: multiply_by_def Initialize_def)
next
  fix i assume "i < length (Data (multiply_by (Initialize nx ny nz) factor))"
  then have i: "i < nx * ny * nz" by (simp add: multiply_by_def Initialize_def)
  then show "Data (multiply_by (Initialize nx ny nz) factor) ! i = replicate (nx * ny * nz) 0 ! i"
    by (simp add: multiply_by_def Initialize_def NumberOfVoxels_def nth_for_each_index)
qed

lemma NumberOfVoxels_multiply_by:
  "NumberOfVoxels (multiply_by im other) = NumberOfVoxels im"
  by (simp add: multiply_by_def NumberOfVoxels_def)

lemma ComputeNCC_zero_output:
  assumes "\<forall>v\<in>set (Data slice_2). v = 0"
    and "NumberOfVoxels slice_1 \<le> length (Data slice_2)"
  shows "ComputeNCC slice_1 slice_2 0 = - 1"
proof (rule ComputeNCC_few)
  have "\<not> Data slice_2 ! j > 0" if "j < NumberOfVoxels slice_1" for j
  proof -
    from that assms(2) have "Data slice_2 ! j \<in> set (Data slice_2)" by (intro nth_mem) simp
    with assms(1) have "Data slice_2 ! j = 0" by blast
    then show ?thesis by simp
  qed
  then have "filter (\<lambda>j. Data slice_1 ! j > 0 \<and> Data slice_2 ! j > 0) [0..<NumberOfVoxels slice_1] = []"
    by (simp add: filter_empty_conv)
  then show "length (filter (\<lambda>j. Data slice_1 ! j > 0 \<and> Data slice_2 ! j > 0)
                     [0..<NumberOfVoxels slice_1]) < 5" by simp
qed

text \<open>
  Whatever the library computes for a slice, the image \<^verbatim>\<open>output\<close> that reaches \<^verbatim>\<open>ComputeNCC\<close>
  is 0 everywhere, the NCC is undefined and the slice is kept under every threshold below 1.
\<close>

lemma StructuralExclusion_keeps_every_slice:
  assumes "inputIndex < length (slices r)" "length (reg_slice_weight r) = length (slices r)"
    and "filtered ! inputIndex = (resampled, blurred, slice_mask)"
    and "NumberOfVoxels blurred \<le> NumberOfVoxels (slices r ! inputIndex)"
    and "global_NCC_threshold r < 1"
  shows "reg_slice_weight (StructuralExclusion (StructuralExclusion_prepared filtered r) r) ! inputIndex = 1"
proof -
  let ?s = "slices r ! inputIndex"
  let ?out = "multiply_by (Initialize (GetX ?s) (GetY ?s) (GetZ ?s)) slice_mask"
  have p: "StructuralExclusion_prepared filtered r ! inputIndex
             = (multiply_by blurred slice_mask, ?out)"
    using assms(1,3) by (simp add: StructuralExclusion_prepared_def StructuralExclusion_images_def)
  have "ComputeNCC (multiply_by blurred slice_mask) ?out 0 = - 1"
  proof (rule ComputeNCC_zero_output)
    show "\<forall>v\<in>set (Data ?out). v = 0" by (simp add: Data_multiply_Initialize)
    show "NumberOfVoxels (multiply_by blurred slice_mask) \<le> length (Data ?out)"
      using assms(4) by (simp add: Data_multiply_Initialize NumberOfVoxels_multiply_by)
         (simp add: NumberOfVoxels_def)
  qed
  with p have "StructuralExclusion_ncc (StructuralExclusion_prepared filtered r) inputIndex = 1"
    by (simp add: StructuralExclusion_ncc_def)
  with assms(5) reg_slice_weight_StructuralExclusion [OF assms(1,2)]
  show ?thesis by simp
qed

lemma example_intended_ncc:
  "ComputeNCC (multiply_by example_target example_slice_mask)
       (multiply_by example_resampled example_slice_mask) 0 = 0"
  by (simp add: ComputeNCC_def multiply_by_def for_each_index_def example_target_def
      example_resampled_def example_slice_mask_def NumberOfVoxels_def
      upt_rec [of _ 5] upt_rec [of _ "Suc _"] Let_def power2_eq_square)

text \<open>
  Claim C5 at a slice that does not correlate with the volume: the NCC of the masked blurred
  slice and the masked resampled volume is 0, below the threshold 0.65 of the constructor,
  so that the gating weight should become \<open>-1\<close>.  The source overwrites the resampled
  volume by \<^verbatim>\<open>output.Initialize\<close> before it calls \<^verbatim>\<open>ComputeNCC\<close>: the image compared with the
  slice is 0 everywhere, the NCC is undefined and counted as 1, and the weight is \<open>+1\<close>.
\<close>

theorem StructuralExclusion_discards_resampled_volume:
  "ComputeNCC (multiply_by example_target example_slice_mask)
       (multiply_by example_resampled example_slice_mask) 0 = 0
   \<and> global_NCC_threshold example_slice = 0.65
   \<and> StructuralExclusion_prepared [(example_resampled, example_target, example_slice_mask)]
        example_slice
      = [(example_target, \<lparr>GetX = 5, GetY = 1, GetZ = 1, Data = [0, 0, 0, 0, 0]\<rparr>)]
   \<and> reg_slice_weight
        (StructuralExclusion
           (StructuralExclusion_prepared [(example_resampled, example_target, example_slice_mask)]
              example_slice)
           example_slice) = [1]"
proof -
  have p: "StructuralExclusion_prepared [(example_resampled, example_target, example_slice_mask)]
        example_slice
      = [(example_target, \<lparr>GetX = 5, GetY = 1, GetZ = 1, Data = [0, 0, 0, 0, 0]\<rparr>)]"
    by (simp add: StructuralExclusion_prepared_def StructuralExclusion_images_def multiply_by_def
        for_each_index_def example_slice_def Reconstruction_new_def example_target_def
        example_slice_mask_def Initialize_def NumberOfVoxels_def
        upt_rec [of _ 5] upt_rec [of _ "Suc _"] numeral_eq_Suc)
  have "ComputeNCC example_target \<lparr>GetX = 5, GetY = 1, GetZ = 1, Data = [0, 0, 0, 0, 0]\<rparr> 0 = - 1"
    by (rule ComputeNCC_few)
      (simp add: example_target_def NumberOfVoxels_def upt_rec [of _ 5] upt_rec [of _ "Suc _"])
  then have w: "reg_slice_weight
        (StructuralExclusion
           [(example_target, \<lparr>GetX = 5, GetY = 1, GetZ = 1, Data = [0, 0, 0, 0, 0]\<rparr>)]
           example_slice) = [1]"
    by (simp add: StructuralExclusion_def StructuralExclusion_ncc_def example_slice_def
        Reconstruction_new_def for_each_index_def)
  show ?thesis
    unfolding p using example_intended_ncc w
    by (simp add: example_slice_def Reconstruction_new_def)
qed

text \<open>
  Claim C10: with fewer than 5 positions at which both images exceed the threshold,
  \<^verbatim>\<open>ComputeNCC\<close> returns \<open>-1\<close>; \<^verbatim>\<open>StructuralExclusion\<close> records the NCC 1 for such a slice and
  keeps it (weight \<open>+1\<close>) under every threshold below 1, such as the default 0.65.
\<close>

theorem undefined_NCC_keeps_slice:
  assumes "inputIndex < length (slices r)" "length (reg_slice_weight r) = length (slices r)"
    and "prepared ! inputIndex = (target, output)"
    and "length (filter (\<lambda>j. Data target ! j > 0 \<and> Data output ! j > 0)
                   [0..<NumberOfVoxels target]) < 5"
    and "global_NCC_threshold r < 1"
  shows "ComputeNCC target output 0 = - 1
       \<and> StructuralExclusion_ncc prepared inputIndex = 1
       \<and> reg_slice_weight (StructuralExclusion prepared r) ! inputIndex = 1"
proof -
  have a: "ComputeNCC target output 0 = - 1" using assms(4) by (rule ComputeNCC_few)
  with assms(3) have b: "StructuralExclusion_ncc prepared inputIndex = 1"
    by (simp add: StructuralExclusion_ncc_def)
  with assms(5) reg_slice_weight_StructuralExclusion [OF assms(1,2), of prepared]
  have "reg_slice_weight (StructuralExclusion prepared r) ! inputIndex = 1" by simp
  with a b show ?thesis by simp
qed

theorem undefined_NCC_keeps_slice_witness:
  "ComputeNCC example_target example_output_small 0 = - 1
   \<and> reg_slice_weight
        (StructuralExclusion [(example_target, example_output_small)] example_slice) = [1]"
proof -
  have "reg_slice_weight
        (StructuralExclusion [(example_target, example_output_small)] example_slice) ! 0 = 1
    \<and> ComputeNCC example_target example_output_small 0 = - 1"
    using undefined_NCC_keeps_slice [of 0 example_slice
        "[(example_target, example_output_small)]" example_target example_output_small]
    by (simp add: example_slice_def Reconstruction_new_def example_target_def
        example_output_small_def NumberOfVoxels_def upt_rec [of _ 5] upt_rec [of _ "Suc _"])
  moreover have "length (reg_slice_weight
        (StructuralExclusion [(example_target, example_output_small)] example_slice)) = 1"
    by (simp add: StructuralExclusion_def example_slice_def Reconstruction_new_def)
  ultimately show ?thesis
    by (cases "reg_slice_weight
        (StructuralExclusion [(example_target, example_output_small)] example_slice)") auto
qed

section \<open>Pixel loops over an image\<close>

lemma Put_grid [simp]:
  "GetX (Put im x y z v) = GetX im" "GetY (Put im x y z v) = GetY im"
  "GetZ (Put im x y z v) = GetZ im"
  by (simp_all add: Put_def)

lemma Put_allocated: "allocated im \<Longrightarrow> allocated (Put im x y z v)"
  by (simp add: allocated_def Put_def NumberOfVoxels_def)

lemma Get_Put:
  assumes "allocated im" "x' < GetX im" "y' < GetY im" "z' < GetZ im"
    and "x < GetX im" "y < GetY im"
  shows "Get (Put im x' y' z' v) x y z =
         (if x = x' \<and> y = y' \<and> z = z' then v else Get im x y z)"
proof -
  have len: "VoxelToIndex im x' y' z' < length (Data im)"
    using VoxelToIndex_less [OF assms(2,3,4)] assms(1) by (simp add: allocated_def)
  show ?thesis
  proof (cases "x = x' \<and> y = y' \<and> z = z'")
    case True
    with len show ?thesis by (simp add: Get_def Put_def VoxelToIndex_def)
  next
    case False
    then have "VoxelToIndex im x' y' z' \<noteq> VoxelToIndex im x y z"
      using VoxelToIndex_inject [OF assms(2,3,5,6)] by blast
    then have "Get (Put im x' y' z' v) x y z = Get im x y z"
      by (simp add: Get_def Put_def VoxelToIndex_def)
    then show ?thesis by (simp only: if_not_P [OF False])
  qed
qed

text \<open>One pass of the pixel loop of the background filter over slice \<open>i\<close>.\<close>

lemma filter_pixel:
  assumes "allocated im" "a < GetX im" "b < GetY im" "i < GetZ im"
  shows "(if Get (Put im a b i v) a b i < 0 then Put (Put im a b i v) a b i 1 else Put im a b i v)
         = Put im a b i (if v < 0 then 1 else v)"
proof -
  have "Get (Put im a b i v) a b i = v" using assms by (simp add: Get_Put)
  moreover have "Put (Put im a b i v) a b i 1 = Put im a b i 1" by (simp add: Put_def VoxelToIndex_def)
  ultimately show ?thesis by simp
qed

lemma filter_plane:
  fixes g :: "nat \<Rightarrow> nat \<Rightarrow> real"
  defines "pixel \<equiv> \<lambda>i (a, b) stack.
             if Get (Put stack a b i (g a b)) a b i < 0
             then Put (Put stack a b i (g a b)) a b i 1 else Put stack a b i (g a b)"
  assumes "allocated im" "i < GetZ im"
    and "\<forall>(a, b)\<in>set cs. a < GetX im \<and> b < GetY im" "distinct cs"
  shows "allocated (fold (pixel i) cs im)
       \<and> GetX (fold (pixel i) cs im) = GetX im
       \<and> GetY (fold (pixel i) cs im) = GetY im
       \<and> GetZ (fold (pixel i) cs im) = GetZ im
       \<and> (\<forall>x y z. x < GetX im \<longrightarrow> y < GetY im \<longrightarrow>
            Get (fold (pixel i) cs im) x y z =
            (if z = i \<and> (x, y) \<in> set cs then (if g x y < 0 then 1 else g x y) else Get im x y z))"
  using assms(2-)
proof (induction cs arbitrary: im)
  case Nil
  then show ?case by simp
next
  case (Cons c cs)
  obtain a b where c: "c = (a, b)" by (cases c)
  let ?im1 = "Put im a b i (if g a b < 0 then 1 else g a b)"
  from Cons.prems c have ab: "a < GetX im" "b < GetY im" by auto
  have st: "pixel i c im = ?im1"
    unfolding c pixel_def using filter_pixel [OF Cons.prems(1) ab Cons.prems(2)] by simp
  have fold: "fold (pixel i) (c # cs) im = fold (pixel i) cs ?im1"
    using st by simp
  have IH: "allocated (fold (pixel i) cs ?im1) \<and> GetX (fold (pixel i) cs ?im1) = GetX ?im1
        \<and> GetY (fold (pixel i) cs ?im1) = GetY ?im1 \<and> GetZ (fold (pixel i) cs ?im1) = GetZ ?im1
        \<and> (\<forall>x y z. x < GetX ?im1 \<longrightarrow> y < GetY ?im1 \<longrightarrow>
            Get (fold (pixel i) cs ?im1) x y z =
            (if z = i \<and> (x, y) \<in> set cs then (if g x y < 0 then 1 else g x y)
             else Get ?im1 x y z))"
    using Cons.prems by (intro Cons.IH) (auto simp: Put_allocated)
  have notin: "(a, b) \<notin> set cs" using Cons.prems(4) c by simp
  show ?case
    unfolding fold using IH notin c
    by (auto simp: Get_Put [OF Cons.prems(1) ab Cons.prems(2)])
qed

lemma filter_stack_unfold:
  "filter_stack gb2 gb3 s =
     fold (\<lambda>i. fold (\<lambda>(a, b) stack.
             if Get (Put stack a b i (Get (gb3 (GetRegion s i)) a b 0 + Get (gb2 s) a b i
                       - Get (gb2 (GetRegion s i)) a b 0)) a b i < 0
             then Put (Put stack a b i (Get (gb3 (GetRegion s i)) a b 0 + Get (gb2 s) a b i
                       - Get (gb2 (GetRegion s i)) a b 0)) a b i 1
             else Put stack a b i (Get (gb3 (GetRegion s i)) a b 0 + Get (gb2 s) a b i
                       - Get (gb2 (GetRegion s i)) a b 0))
           (List.product [0..<GetX s] [0..<GetY s]))
       [0..<GetZ s] s"
  by (simp add: filter_stack_def Let_def)

lemma filter_slices:
  fixes g :: "nat \<Rightarrow> nat \<Rightarrow> nat \<Rightarrow> real"
  defines "pass \<equiv> \<lambda>nx ny i. fold (\<lambda>(a, b) stack.
             if Get (Put stack a b i (g i a b)) a b i < 0
             then Put (Put stack a b i (g i a b)) a b i 1 else Put stack a b i (g i a b))
           (List.product [0..<nx] [0..<ny])"
  assumes "allocated im" "\<forall>i\<in>set zs. i < GetZ im" "distinct zs"
  shows "allocated (fold (pass (GetX im) (GetY im)) zs im)
       \<and> GetX (fold (pass (GetX im) (GetY im)) zs im) = GetX im
       \<and> GetY (fold (pass (GetX im) (GetY im)) zs im) = GetY im
       \<and> GetZ (fold (pass (GetX im) (GetY im)) zs im) = GetZ im
       \<and> (\<forall>x y z. x < GetX im \<longrightarrow> y < GetY im \<longrightarrow>
            Get (fold (pass (GetX im) (GetY im)) zs im) x y z =
            (if z \<in> set zs then (if g z x y < 0 then 1 else g z x y) else Get im x y z))"
  using assms(2-)
proof (induction zs arbitrary: im)
  case Nil
  then show ?case by simp
next
  case (Cons i zs)
  let ?im1 = "pass (GetX im) (GetY im) i im"
  have plane: "allocated ?im1 \<and> GetX ?im1 = GetX im \<and> GetY ?im1 = GetY im
       \<and> GetZ ?im1 = GetZ im
       \<and> (\<forall>x y z. x < GetX im \<longrightarrow> y < GetY im \<longrightarrow>
            Get ?im1 x y z =
            (if z = i \<and> (x, y) \<in> set (List.product [0..<GetX im] [0..<GetY im])
             then (if g i x y < 0 then 1 else g i x y) else Get im x y z))"
    unfolding pass_def using Cons.prems
    by (intro filter_plane) (auto simp: distinct_product)
  then have dims: "GetX ?im1 = GetX im" "GetY ?im1 = GetY im" "GetZ ?im1 = GetZ im"
    and al: "allocated ?im1" by simp_all
  have IH: "allocated (fold (pass (GetX ?im1) (GetY ?im1)) zs ?im1)
       \<and> GetX (fold (pass (GetX ?im1) (GetY ?im1)) zs ?im1) = GetX ?im1
       \<and> GetY (fold (pass (GetX ?im1) (GetY ?im1)) zs ?im1) = GetY ?im1
       \<and> GetZ (fold (pass (GetX ?im1) (GetY ?im1)) zs ?im1) = GetZ ?im1
       \<and> (\<forall>x y z. x < GetX ?im1 \<longrightarrow> y < GetY ?im1 \<longrightarrow>
            Get (fold (pass (GetX ?im1) (GetY ?im1)) zs ?im1) x y z =
            (if z \<in> set zs then (if g z x y < 0 then 1 else g z x y) else Get ?im1 x y z))"
    using Cons.prems al by (intro Cons.IH) (simp_all add: dims)
  have notin: "i \<notin> set zs" using Cons.prems(3) by simp
  have fold: "fold (pass (GetX im) (GetY im)) (i # zs) im =
              fold (pass (GetX ?im1) (GetY ?im1)) zs ?im1"
    by (simp add: dims)
  show ?case
    unfolding fold using IH plane notin by (auto simp: dims)
qed

section \<open>The background filter\<close>

lemma filtered_value_nonneg: "0 \<le> filtered_value a b c"
  by (simp add: filtered_value_def)

text \<open>
  Claim C9, as the source tests it: every pixel of a filtered stack is the foreground-blurred
  slice plus the globally blurred stack minus the slice-blurred value, replaced by 1 when
  that value is negative; no pixel of the filtered stack is negative.
\<close>

theorem BackgroundFiltering_pixels:
  assumes "j < length stacks" "allocated (stacks ! j)"
    and "x < GetX (stacks ! j)" "y < GetY (stacks ! j)" "z < GetZ (stacks ! j)"
  shows "Get (BackgroundFiltering gb2 gb3 stacks ! j) x y z =
           filtered_value (Get (gb3 (GetRegion (stacks ! j) z)) x y 0)
             (Get (gb2 (stacks ! j)) x y z) (Get (gb2 (GetRegion (stacks ! j) z)) x y 0)
       \<and> 0 \<le> Get (BackgroundFiltering gb2 gb3 stacks ! j) x y z"
proof -
  let ?s = "stacks ! j"
  let ?g = "\<lambda>i a b. Get (gb3 (GetRegion ?s i)) a b 0 + Get (gb2 ?s) a b i
                       - Get (gb2 (GetRegion ?s i)) a b 0"
  have "Get (filter_stack gb2 gb3 ?s) x y z =
        (if z \<in> set [0..<GetZ ?s] then (if ?g z x y < 0 then 1 else ?g z x y) else Get ?s x y z)"
    unfolding filter_stack_unfold
    using filter_slices [of ?s "[0..<GetZ ?s]" ?g] assms(2,3,4) by simp
  with assms(5) have "Get (filter_stack gb2 gb3 ?s) x y z =
      filtered_value (Get (gb3 (GetRegion ?s z)) x y 0) (Get (gb2 ?s) x y z)
        (Get (gb2 (GetRegion ?s z)) x y 0)"
    by (simp add: filtered_value_def)
  moreover have "BackgroundFiltering gb2 gb3 stacks ! j = filter_stack gb2 gb3 ?s"
    using assms(1) by (simp add: BackgroundFiltering_def nth_for_each_index)
  ultimately show ?thesis by (simp add: filtered_value_nonneg)
qed

theorem BackgroundFiltering_pixels_witness:
  "Get (BackgroundFiltering id id [example_stack (- 3)] ! 0) 0 0 0 = 1"
  using BackgroundFiltering_pixels [of 0 "[example_stack (- 3)]" 0 0 0 id id]
  by (simp add: example_stack_def allocated_def NumberOfVoxels_def filtered_value_def
      GetRegion_def Get_def VoxelToIndex_def)

text \<open>
  Claim C9 as stated fails at a computed value 0, which is non-positive: the test is
  \<^verbatim>\<open>stack(x, y, i) < 0\<close>, and the pixel stays 0.
\<close>

theorem BackgroundFiltering_zero_counterexample:
  "Get (id (GetRegion (example_stack 0) 0)) 0 0 0 + Get (id (example_stack 0)) 0 0 0
     - Get (id (GetRegion (example_stack 0) 0)) 0 0 0 \<le> 0
   \<and> Get (BackgroundFiltering id id [example_stack 0] ! 0) 0 0 0 = 0"
  by (simp add: BackgroundFiltering_def filter_stack_def for_each_index_def example_stack_def
      GetRegion_def Get_def Put_def VoxelToIndex_def Let_def)

section \<open>The quality measure\<close>

text \<open>The pixel loop of the quality measure rewrites its local copy of the slice.\<close>

lemma slice_nrmse_copy:
  "fst (slice_nrmse slice ns b scl) =
     fold (\<lambda>(x, y) nt. if Get nt x y 0 > 0 \<and> Get ns x y 0 > 0
                        then Put nt x y 0 (Get nt x y 0 * (exp (- Get b x y 0) * scl)) else nt)
       (List.product [0..<GetX slice] [0..<GetY slice]) slice"
proof -
  let ?step = "\<lambda>(x, y) (nt, s_diff, s_t, s_n :: nat).
                    if Get nt x y 0 > 0 \<and> Get ns x y 0 > 0 then
                      let nt' = Put nt x y 0 (Get nt x y 0 * (exp (- Get b x y 0) * scl))
                      in (nt',
                          s_diff + (Get nt' x y 0 - Get ns x y 0) * (Get nt' x y 0 - Get ns x y 0),
                          s_t + Get nt' x y 0,
                          Suc s_n)
                    else (nt, s_diff, s_t, s_n)"
  let ?copy = "\<lambda>(x, y) nt. if Get nt x y 0 > 0 \<and> Get ns x y 0 > 0
                        then Put nt x y 0 (Get nt x y 0 * (exp (- Get b x y 0) * scl)) else nt"
  have "fst (fold ?step cs st) = fold ?copy cs (fst st)" for cs st
    by (induction cs arbitrary: st) (auto simp: split_def Let_def)
  from this [of "List.product [0..<GetX slice] [0..<GetY slice]" "(slice, 0, 0, 0)"]
  show ?thesis by (simp add: slice_nrmse_def split_def Let_def)
qed

lemma copy_plane:
  fixes F :: "nat \<Rightarrow> nat \<Rightarrow> real \<Rightarrow> real" and Q :: "nat \<Rightarrow> nat \<Rightarrow> bool"
  defines "pixel \<equiv> \<lambda>(a, b) nt. if Get nt a b 0 > 0 \<and> Q a b
                        then Put nt a b 0 (F a b (Get nt a b 0)) else nt"
  assumes "allocated im" "0 < GetZ im"
    and "\<forall>(a, b)\<in>set cs. a < GetX im \<and> b < GetY im" "distinct cs"
  shows "allocated (fold pixel cs im) \<and> GetX (fold pixel cs im) = GetX im
       \<and> GetY (fold pixel cs im) = GetY im \<and> GetZ (fold pixel cs im) = GetZ im
       \<and> (\<forall>x y. x < GetX im \<longrightarrow> y < GetY im \<longrightarrow>
            Get (fold pixel cs im) x y 0 =
            (if (x, y) \<in> set cs \<and> Get im x y 0 > 0 \<and> Q x y then F x y (Get im x y 0)
             else Get im x y 0))"
  using assms(2-)
proof (induction cs arbitrary: im)
  case Nil
  then show ?case by simp
next
  case (Cons c cs)
  obtain a b where c: "c = (a, b)" by (cases c)
  let ?im1 = "pixel (a, b) im"
  from Cons.prems c have ab: "a < GetX im" "b < GetY im" by auto
  have im1: "allocated ?im1" "GetX ?im1 = GetX im" "GetY ?im1 = GetY im" "GetZ ?im1 = GetZ im"
    using Cons.prems(1) by (simp_all add: pixel_def Put_allocated)
  have get1: "Get ?im1 x y 0 =
        (if x = a \<and> y = b \<and> Get im x y 0 > 0 \<and> Q x y then F x y (Get im x y 0) else Get im x y 0)"
    if "x < GetX im" "y < GetY im" for x y
    using that by (auto simp: pixel_def Get_Put [OF Cons.prems(1) ab Cons.prems(2)])
  have IH: "allocated (fold pixel cs ?im1) \<and> GetX (fold pixel cs ?im1) = GetX ?im1
       \<and> GetY (fold pixel cs ?im1) = GetY ?im1 \<and> GetZ (fold pixel cs ?im1) = GetZ ?im1
       \<and> (\<forall>x y. x < GetX ?im1 \<longrightarrow> y < GetY ?im1 \<longrightarrow>
            Get (fold pixel cs ?im1) x y 0 =
            (if (x, y) \<in> set cs \<and> Get ?im1 x y 0 > 0 \<and> Q x y then F x y (Get ?im1 x y 0)
             else Get ?im1 x y 0))"
    using Cons.prems im1 c by (intro Cons.IH) simp_all
  have notin: "(a, b) \<notin> set cs" using Cons.prems(4) c by simp
  have fold: "fold pixel (c # cs) im = fold pixel cs ?im1" by (simp add: c)
  show ?case unfolding fold
  proof (intro conjI allI impI)
    show "allocated (fold pixel cs ?im1)" using IH by simp
    show "GetX (fold pixel cs ?im1) = GetX im" using IH im1 by simp
    show "GetY (fold pixel cs ?im1) = GetY im" using IH im1 by simp
    show "GetZ (fold pixel cs ?im1) = GetZ im" using IH im1 by simp
    fix x y assume xy: "x < GetX im" "y < GetY im"
    then have "Get (fold pixel cs ?im1) x y 0 =
            (if (x, y) \<in> set cs \<and> Get ?im1 x y 0 > 0 \<and> Q x y then F x y (Get ?im1 x y 0)
             else Get ?im1 x y 0)" using IH im1 by simp
    then show "Get (fold pixel cs ?im1) x y 0 =
            (if (x, y) \<in> set (c # cs) \<and> Get im x y 0 > 0 \<and> Q x y then F x y (Get im x y 0)
             else Get im x y 0)"
      using get1 [OF xy] notin c by auto
  qed
qed

lemma slice_nrmse_local_copy:
  assumes "allocated slice" "0 < GetZ slice" "x < GetX slice" "y < GetY slice"
  shows "Get (fst (slice_nrmse slice ns b scl)) x y 0 =
         (if Get slice x y 0 > 0 \<and> Get ns x y 0 > 0
          then Get slice x y 0 * (exp (- Get b x y 0) * scl) else Get slice x y 0)"
  unfolding slice_nrmse_copy
  using copy_plane [of slice "List.product [0..<GetX slice] [0..<GetY slice]"
      "\<lambda>a c. Get ns a c 0 > 0" "\<lambda>a c v. v * (exp (- Get b a c 0) * scl)"] assms
  by (simp add: distinct_product)

text \<open>
  Claim C8, as the source assigns: \<^verbatim>\<open>EvaluateReconQuality\<close> leaves the object as it was, the
  stored slices included.  What it multiplies by \<open>exp (- B) * s\<close> at the pixels where the
  slice and the simulated slice are positive is its local copy \<^verbatim>\<open>nt\<close> of the slice.
\<close>

theorem EvaluateReconQuality_frame:
  "snd (EvaluateReconQuality stackIndex r) = r
   \<and> (\<forall>inputIndex x y. inputIndex < length (slices r) \<longrightarrow> allocated (slices r ! inputIndex) \<longrightarrow>
         0 < GetZ (slices r ! inputIndex) \<longrightarrow> x < GetX (slices r ! inputIndex) \<longrightarrow>
         y < GetY (slices r ! inputIndex) \<longrightarrow>
         Get (fst (slice_nrmse (slices r ! inputIndex) (simulated_slices r ! inputIndex)
                     (bias r ! inputIndex) (scale r ! inputIndex))) x y 0 =
           (if Get (slices r ! inputIndex) x y 0 > 0
                \<and> Get (simulated_slices r ! inputIndex) x y 0 > 0
            then Get (slices r ! inputIndex) x y 0
                   * (exp (- Get (bias r ! inputIndex) x y 0) * scale r ! inputIndex)
            else Get (slices r ! inputIndex) x y 0))"
  by (simp add: EvaluateReconQuality_def Let_def slice_nrmse_local_copy)

theorem EvaluateReconQuality_frame_witness:
  "snd (EvaluateReconQuality 0 example_quality) = example_quality
   \<and> Get (fst (slice_nrmse (slices example_quality ! 0) (simulated_slices example_quality ! 0)
                 (bias example_quality ! 0) (scale example_quality ! 0))) 0 0 0 = 200"
  using EvaluateReconQuality_frame [of 0 example_quality]
  by (simp add: example_quality_def Reconstruction_new_def allocated_def NumberOfVoxels_def
      Get_def VoxelToIndex_def)

text \<open>
  Claim C8 as stated fails: the slice has a valid first pixel, scale 2 and no bias; the
  local copy ends with the pixel doubled, and the stored slice is what it was before the
  call.
\<close>

theorem EvaluateReconQuality_mutation_counterexample:
  "Data (fst (slice_nrmse (slices example_quality ! 0) (simulated_slices example_quality ! 0)
           (bias example_quality ! 0) (scale example_quality ! 0))) = [200, 50]
   \<and> slices (snd (EvaluateReconQuality 0 example_quality)) = slices example_quality
   \<and> map Data (slices (snd (EvaluateReconQuality 0 example_quality))) = [[100, 50]]"
proof -
  have "fst (slice_nrmse (slices example_quality ! 0) (simulated_slices example_quality ! 0)
           (bias example_quality ! 0) (scale example_quality ! 0)) =
       \<lparr>GetX = 2, GetY = 1, GetZ = 1, Data = [200, 50]\<rparr>"
    by (simp add: slice_nrmse_def example_quality_def Reconstruction_new_def Get_def Put_def
        VoxelToIndex_def Let_def upt_rec [of _ 2] upt_rec [of _ "Suc _"])
  then show ?thesis
    by (simp add: EvaluateReconQuality_def Let_def example_quality_def)
qed


section \<open>The intensity bounds of the super-resolution step\<close>

lemma bound_intensity_range:
  "lo \<le> hi \<Longrightarrow> lo \<le> bound_intensity lo hi p \<and> bound_intensity lo hi p \<le> hi"
  by (auto simp: bound_intensity_def Let_def)

lemma Superresolution_update_frame:
  "min_intensity (Superresolution_update addon0 cmap0 r) = min_intensity r"
  "max_intensity (Superresolution_update addon0 cmap0 r) = max_intensity r"
  "mask (Superresolution_update addon0 cmap0 r) = mask r"
  "global_bias_correction (Superresolution_update addon0 cmap0 r) = global_bias_correction r"
  "NumberOfVoxels (reconstructed (Superresolution_update addon0 cmap0 r)) =
     NumberOfVoxels (reconstructed r)"
  "length (Data (reconstructed (Superresolution_update addon0 cmap0 r))) =
     length (Data (reconstructed r))"
  by (simp_all add: Superresolution_update_def Let_def NumberOfVoxels_def)

lemma nth_bounded:
  assumes "i < n" "i < length xs" "lo \<le> hi"
  shows "lo \<le> for_each_index n (\<lambda>k. bound_intensity lo hi) xs ! i
       \<and> for_each_index n (\<lambda>k. bound_intensity lo hi) xs ! i \<le> hi"
  using assms by (simp add: nth_for_each_index bound_intensity_range)

lemma Superresolution_update_data:
  "\<exists>U. Data (reconstructed (Superresolution_update addon0 cmap0 r)) =
          for_each_index (NumberOfVoxels (reconstructed r))
            (\<lambda>k. bound_intensity (min_intensity r * 0.9) (max_intensity r * 1.1)) U
      \<and> length U = length (Data (reconstructed r))"
  apply (simp add: Superresolution_update_def Let_def split del: if_split)
  apply (rule exI)
  apply (rule conjI)
   apply (rule refl)
  apply simp
  done

text \<open>Right after the update every voxel of the volume lies within the bounds.\<close>

lemma Superresolution_update_bounded:
  assumes "min_intensity r * 0.9 \<le> max_intensity r * 1.1"
    and "allocated (reconstructed r)" "i < NumberOfVoxels (reconstructed r)"
  shows "min_intensity r * 0.9 \<le> Data (reconstructed (Superresolution_update addon0 cmap0 r)) ! i
       \<and> Data (reconstructed (Superresolution_update addon0 cmap0 r)) ! i \<le> max_intensity r * 1.1"
proof -
  from assms(2,3) have len: "i < length (Data (reconstructed r))" by (simp add: allocated_def)
  from Superresolution_update_data [of addon0 cmap0 r] obtain U where
    U: "Data (reconstructed (Superresolution_update addon0 cmap0 r)) =
          for_each_index (NumberOfVoxels (reconstructed r))
            (\<lambda>k. bound_intensity (min_intensity r * 0.9) (max_intensity r * 1.1)) U"
    "length U = length (Data (reconstructed r))" by blast
  show ?thesis unfolding U(1) using assms(3) len assms(1) by (intro nth_bounded) (simp_all only: U(2))
qed

lemma nth_bias_corrected:
  assumes "i < n" "i < length pv" "lo \<le> hi" "pm ! i = (1::real)"
  shows "for_each_index n
           (\<lambda>k v. if pm ! k = 1
                    then if nan k then NaN else Number (bound_intensity lo hi (f k))
                    else v)
           (map Number pv) ! i =
         (if nan i then NaN else Number (bound_intensity lo hi (f i)))"
  using assms by (simp add: nth_for_each_index)

lemma nth_not_corrected:
  assumes "i < length pv" "pm ! i \<noteq> (1::real)"
  shows "for_each_index n
           (\<lambda>k v. if pm ! k = 1
                    then if nan k then NaN else Number (bound_intensity lo hi (f k))
                    else v)
           (map Number pv) ! i = Number (pv ! i)"
  using assms by (simp add: nth_for_each_index)

lemma BiasCorrectVolume_data:
  assumes "BiasCorrectVolume gb original r = Some vs"
  shows "\<exists>nan f. vs =
          for_each_index (NumberOfVoxels (reconstructed r))
            (\<lambda>k v. if Data (mask r) ! k = 1
                     then if nan k then NaN
                          else Number (bound_intensity (min_intensity r * 0.9)
                                         (max_intensity r * 1.1) (f k))
                     else v)
            (map Number (Data (reconstructed r)))"
proof -
  let ?low = "low_intensity_cutoff r * max_intensity r"
  let ?n = "NumberOfVoxels (reconstructed r)"
  let ?pr = "Data (gb ((reconstructed r)\<lparr>Data :=
                for_each_index ?n
                  (\<lambda>i p. if Data (mask r) ! i = 1 \<and> Data original ! i > ?low \<and> p > ?low
                           then ln (p / Data original ! i) else 0)
                  (Data (reconstructed r))\<rparr>))"
  let ?pw = "Data (gb ((mask r)\<lparr>Data :=
                for_each_index ?n
                  (\<lambda>i w. if w = 1 \<and> Data original ! i > ?low \<and> Data (reconstructed r) ! i > ?low
                           then w else 0)
                  (Data (mask r))\<rparr>))"
  have "vs = for_each_index ?n
            (\<lambda>k v. if Data (mask r) ! k = 1
                     then if ?pw ! k = 0 then NaN
                          else Number (bound_intensity (min_intensity r * 0.9)
                                         (max_intensity r * 1.1)
                                         (Data (reconstructed r) ! k / exp (?pr ! k / ?pw ! k)))
                     else v)
            (map Number (Data (reconstructed r)))"
    using assms by (simp add: BiasCorrectVolume_def Let_def split: if_splits cong: if_cong)
  then show ?thesis
    apply (intro exI [of _ "\<lambda>k. ?pw ! k = 0"])
    apply (rule exI [of _ "\<lambda>k. Data (reconstructed r) ! k / exp (?pr ! k / ?pw ! k)"])
    apply assumption
    done
qed

text \<open>
  After \<^verbatim>\<open>BiasCorrectVolume\<close> a voxel inside the mask lies within the bounds unless it is
  \<^verbatim>\<open>NaN\<close>, and a voxel outside the mask is as it was.
\<close>

lemma BiasCorrectVolume_bounded:
  assumes "min_intensity r * 0.9 \<le> max_intensity r * 1.1"
    and "i < length (Data (reconstructed r))" "i < NumberOfVoxels (reconstructed r)"
    and "Data (mask r) ! i = 1"
    and "BiasCorrectVolume gb original r = Some vs"
  shows "vs ! i = NaN
       \<or> (\<exists>v. vs ! i = Number v \<and> min_intensity r * 0.9 \<le> v \<and> v \<le> max_intensity r * 1.1)"
proof -
  from BiasCorrectVolume_data [OF assms(5)] obtain nan f where
    f: "vs = for_each_index (NumberOfVoxels (reconstructed r))
            (\<lambda>k v. if Data (mask r) ! k = 1
                     then if nan k then NaN
                          else Number (bound_intensity (min_intensity r * 0.9)
                                         (max_intensity r * 1.1) (f k))
                     else v)
            (map Number (Data (reconstructed r)))" by blast
  have "vs ! i = (if nan i then NaN
                  else Number (bound_intensity (min_intensity r * 0.9) (max_intensity r * 1.1) (f i)))"
    unfolding f using assms(3,2,1,4) by (rule nth_bias_corrected)
  then show ?thesis using bound_intensity_range [OF assms(1), of "f i"] by (cases "nan i") simp_all
qed

lemma BiasCorrectVolume_outside_mask:
  assumes "i < length (Data (reconstructed r))" "Data (mask r) ! i \<noteq> 1"
    and "BiasCorrectVolume gb original r = Some vs"
  shows "vs ! i = Number (Data (reconstructed r) ! i)"
proof -
  from BiasCorrectVolume_data [OF assms(3)] obtain nan f where
    f: "vs = for_each_index (NumberOfVoxels (reconstructed r))
            (\<lambda>k v. if Data (mask r) ! k = 1
                     then if nan k then NaN
                          else Number (bound_intensity (min_intensity r * 0.9)
                                         (max_intensity r * 1.1) (f k))
                     else v)
            (map Number (Data (reconstructed r)))" by blast
  show ?thesis unfolding f using assms(1,2) by (rule nth_not_corrected)
qed

text \<open>
  Where the volume before the step is at or below the cutoff at every voxel, the first loop
  of \<^verbatim>\<open>BiasCorrectVolume\<close> sets the residual and the weights to 0 everywhere; a blur leaves
  such images as they are, and every voxel inside the mask ends as \<^verbatim>\<open>NaN\<close>, whatever its value
  was.
\<close>

lemma for_each_index_zero:
  assumes "\<And>k. k < n \<Longrightarrow> \<not> P k (xs ! k)" "length xs \<le> n"
  shows "\<forall>v\<in>set (for_each_index n (\<lambda>k v. if P k v then f k v else (0::real)) xs). v = 0"
proof
  fix v assume "v \<in> set (for_each_index n (\<lambda>k v. if P k v then f k v else 0) xs)"
  then obtain k where k: "k < length xs"
    "v = for_each_index n (\<lambda>k v. if P k v then f k v else 0) xs ! k"
    by (auto simp: in_set_conv_nth)
  with assms(2) have "k < n" by simp
  with k assms(1) [of k] show "v = 0" by (simp add: nth_for_each_index)
qed

lemma BiasCorrectVolume_dark:
  assumes dark: "\<And>k. k < NumberOfVoxels (reconstructed r)
                   \<Longrightarrow> Data original ! k \<le> low_intensity_cutoff r * max_intensity r"
    and blur: "\<And>im. \<forall>v\<in>set (Data im). v = 0 \<Longrightarrow> Data (gb im) = Data im"
    and len: "length (Data (reconstructed r)) = NumberOfVoxels (reconstructed r)"
             "length (Data (mask r)) = NumberOfVoxels (reconstructed r)"
    and i: "i < NumberOfVoxels (reconstructed r)" "Data (mask r) ! i = 1"
  shows "\<exists>vs. BiasCorrectVolume gb original r = Some vs \<and> vs ! i = NaN"
proof -
  let ?low = "low_intensity_cutoff r * max_intensity r"
  let ?n = "NumberOfVoxels (reconstructed r)"
  let ?R = "for_each_index ?n
                  (\<lambda>i p. if Data (mask r) ! i = 1 \<and> Data original ! i > ?low \<and> p > ?low
                           then ln (p / Data original ! i) else 0)
                  (Data (reconstructed r))"
  let ?W = "for_each_index ?n
                  (\<lambda>i w. if w = 1 \<and> Data original ! i > ?low \<and> Data (reconstructed r) ! i > ?low
                           then w else 0)
                  (Data (mask r))"
  have R0: "\<forall>v\<in>set ?R. v = 0"
    using dark len(1) by (intro for_each_index_zero) (simp_all add: not_less)
  have W0: "\<forall>v\<in>set ?W. v = 0"
    using dark len(2) by (intro for_each_index_zero) (simp_all add: not_less)
  have pr: "Data (gb ((reconstructed r)\<lparr>Data := ?R\<rparr>)) = ?R"
    using blur [of "(reconstructed r)\<lparr>Data := ?R\<rparr>"] R0 by simp
  have pw: "Data (gb ((mask r)\<lparr>Data := ?W\<rparr>)) = ?W"
    using blur [of "(mask r)\<lparr>Data := ?W\<rparr>"] W0 by simp
  have R: "?R ! k = 0" if "k < ?n" for k
    using that dark [of k] len(1) by (simp add: nth_for_each_index)
  have W: "?W ! k = 0" if "k < ?n" for k
    using that dark [of k] len(2) by (simp add: nth_for_each_index)
  have ok: "list_all (\<lambda>i. (if Data (mask r) ! i = 1 \<and> Data original ! i > ?low
                                 \<and> Data (reconstructed r) ! i > ?low
                              then 0 < Data (reconstructed r) ! i / Data original ! i else True)
                         \<and> (if Data (mask r) ! i = 1 \<and> ?W ! i = 0 then ?R ! i = 0 else True))
              [0..<?n]"
    using dark R by (auto simp: list_all_iff not_less [symmetric])
  have "BiasCorrectVolume gb original r =
      Some (for_each_index ?n
              (\<lambda>k v. if Data (mask r) ! k = 1
                       then if ?W ! k = 0 then NaN
                            else Number (bound_intensity (min_intensity r * 0.9)
                                   (max_intensity r * 1.1)
                                   (Data (reconstructed r) ! k / exp (?R ! k / ?W ! k)))
                       else v)
              (map Number (Data (reconstructed r))))"
    unfolding BiasCorrectVolume_def Let_def pr pw using ok by (simp only: if_True)
  moreover have "for_each_index ?n
              (\<lambda>k v. if Data (mask r) ! k = 1
                       then if ?W ! k = 0 then NaN
                            else Number (bound_intensity (min_intensity r * 0.9)
                                   (max_intensity r * 1.1)
                                   (Data (reconstructed r) ! k / exp (?R ! k / ?W ! k)))
                       else v)
              (map Number (Data (reconstructed r))) ! i = NaN"
    using i len(1) W [of i] by (simp add: nth_for_each_index)
  ultimately show ?thesis by simp
qed

lemma AdaptiveRegularization_frame:
  "min_intensity (AdaptiveRegularization directions pass1 pass2 iter original r) = min_intensity r"
  "max_intensity (AdaptiveRegularization directions pass1 pass2 iter original r) = max_intensity r"
  "low_intensity_cutoff (AdaptiveRegularization directions pass1 pass2 iter original r)
     = low_intensity_cutoff r"
  "mask (AdaptiveRegularization directions pass1 pass2 iter original r) = mask r"
  "NumberOfVoxels (reconstructed (AdaptiveRegularization directions pass1 pass2 iter original r)) =
     NumberOfVoxels (reconstructed r)"
  "length (Data (reconstructed (AdaptiveRegularization directions pass1 pass2 iter original r))) =
     length (Data (reconstructed r))"
  by (simp_all add: AdaptiveRegularization_def Let_def NumberOfVoxels_def)

lemma Superresolution_update_cutoff:
  "low_intensity_cutoff (Superresolution_update addon0 cmap0 r) = low_intensity_cutoff r"
  by (simp add: Superresolution_update_def Let_def)

lemma Superresolution_dark:
  assumes bias: "global_bias_correction r"
    and dark: "\<And>k. k < NumberOfVoxels (reconstructed r)
                   \<Longrightarrow> Data (reconstructed r) ! k \<le> low_intensity_cutoff r * max_intensity r"
    and blur: "\<And>im. \<forall>v\<in>set (Data im). v = 0 \<Longrightarrow> Data (gb im) = Data im"
    and len: "allocated (reconstructed r)"
             "length (Data (mask r)) = NumberOfVoxels (reconstructed r)"
    and i: "i < NumberOfVoxels (reconstructed r)" "Data (mask r) ! i = 1"
  shows "\<exists>r' vs. Superresolution gb directions pass1 pass2 addon0 cmap0 iter r = Some (r', vs)
                 \<and> vs ! i = NaN"
proof -
  let ?r2 = "AdaptiveRegularization directions pass1 pass2 iter (reconstructed r)
               (Superresolution_update addon0 cmap0 r)"
  have frame: "max_intensity ?r2 = max_intensity r" "low_intensity_cutoff ?r2 = low_intensity_cutoff r"
    "mask ?r2 = mask r" "NumberOfVoxels (reconstructed ?r2) = NumberOfVoxels (reconstructed r)"
    "length (Data (reconstructed ?r2)) = length (Data (reconstructed r))"
    by (simp_all only: AdaptiveRegularization_frame Superresolution_update_frame
        Superresolution_update_cutoff)
  have "\<exists>vs. BiasCorrectVolume gb (reconstructed r) ?r2 = Some vs \<and> vs ! i = NaN"
  proof (rule BiasCorrectVolume_dark)
    show "Data (reconstructed r) ! k \<le> low_intensity_cutoff ?r2 * max_intensity ?r2"
      if "k < NumberOfVoxels (reconstructed ?r2)" for k
      using that dark [of k] by (simp only: frame)
    show "Data (gb im) = Data im" if "\<forall>v\<in>set (Data im). v = 0" for im
      using that by (rule blur)
    show "length (Data (reconstructed ?r2)) = NumberOfVoxels (reconstructed ?r2)"
      using len(1) by (simp only: frame allocated_def)
    show "length (Data (mask ?r2)) = NumberOfVoxels (reconstructed ?r2)"
      using len(2) by (simp only: frame)
    show "i < NumberOfVoxels (reconstructed ?r2)" using i(1) by (simp only: frame)
    show "Data (mask ?r2) ! i = 1" using i(2) by (simp only: frame)
  qed
  then obtain vs where "BiasCorrectVolume gb (reconstructed r) ?r2 = Some vs" "vs ! i = NaN"
    by blast
  then show ?thesis using bias by (simp add: Superresolution_def Let_def)
qed

text \<open>
  Claim C3 at a dark volume with the global bias correction enabled: the bounds are 9 and
  110, the cutoff is 1 and both voxels of the volume are 1/2 before the step.  Whatever the
  two passes of the adaptive regularization compute, \<^verbatim>\<open>BiasCorrectVolume\<close> divides 0 by 0 at
  the voxel inside the mask, and the step ends with this voxel \<^verbatim>\<open>NaN\<close>, which the two tests
  that bound the intensity let pass: the voxel does not lie in \<open>[9, 110]\<close>.
\<close>

theorem Superresolution_leaves_NaN:
  "global_bias_correction example_sr
   \<and> min_intensity example_sr * 0.9 = 9 \<and> max_intensity example_sr * 1.1 = 110
   \<and> low_intensity_cutoff example_sr * max_intensity example_sr = 1
   \<and> Data (reconstructed example_sr) = [1/2, 1/2]
   \<and> Data (mask example_sr) = [1, 0]
   \<and> (\<forall>directions pass1 pass2. \<exists>r' vs.
         Superresolution id directions pass1 pass2 example_addon example_confidence 1 example_sr
           = Some (r', vs)
         \<and> vs ! 0 = NaN)"
proof -
  have e: "global_bias_correction example_sr"
    "min_intensity example_sr * 0.9 = 9" "max_intensity example_sr * 1.1 = 110"
    "low_intensity_cutoff example_sr * max_intensity example_sr = 1"
    "Data (reconstructed example_sr) = [1/2, 1/2]" "Data (mask example_sr) = [1, 0]"
    "NumberOfVoxels (reconstructed example_sr) = 2" "allocated (reconstructed example_sr)"
    by (simp_all add: example_sr_def Reconstruction_new_def NumberOfVoxels_def allocated_def)
  have "\<exists>r' vs.
         Superresolution id directions pass1 pass2 example_addon example_confidence 1 example_sr
           = Some (r', vs)
         \<and> vs ! 0 = NaN" for directions pass1 pass2
  proof (rule Superresolution_dark)
    show "global_bias_correction example_sr" by (rule e(1))
    show "Data (reconstructed example_sr) ! k
            \<le> low_intensity_cutoff example_sr * max_intensity example_sr"
      if "k < NumberOfVoxels (reconstructed example_sr)" for k
    proof -
      from that have "k = 0 \<or> k = 1" unfolding e(7) by auto
      then show ?thesis unfolding e(4,5) by auto
    qed
    show "Data (id im) = Data im" for im :: RealImage by simp
    show "allocated (reconstructed example_sr)" by (rule e(8))
    show "length (Data (mask example_sr)) = NumberOfVoxels (reconstructed example_sr)"
      unfolding e(6,7) by simp
    show "0 < NumberOfVoxels (reconstructed example_sr)" unfolding e(7) by simp
    show "Data (mask example_sr) ! 0 = 1" unfolding e(6) by simp
  qed
  with e(1-6) show ?thesis by blast
qed

end
